theory Spec2Isabelle
  imports Complex_Main
begin

section \<open>JavaScript numbers\<close>

text \<open>
  A JavaScript number is modelled as a real, one of the two infinities, or NaN. The
  operators below are exact; \<open>binary64\<close> rounds a number to the nearest binary64
  value, and the model applies it where the code turns a product or a quotient into an
  integer, since there the last bit decides the result. The sign of zero is not
  tracked: \<open>Fin 0\<close> stands for \<open>+0\<close>, which is the only zero the divisors of this
  library can be (element sizes are non-negative integers, and \<open>parseAspectRatio\<close>
  rejects a zero denominator of either sign before it divides).
\<close>

datatype number = Fin real | PosInf | NegInf | NaN

text \<open>The operator \<open>/\<close>: a zero divisor gives an infinity or NaN, never an error.\<close>

fun js_div :: "number \<Rightarrow> number \<Rightarrow> number" where
  "js_div (Fin a) (Fin b) =
     (if b = 0 then (if a = 0 then NaN else if 0 < a then PosInf else NegInf)
      else Fin (a / b))"
| "js_div (Fin a) PosInf = Fin 0"
| "js_div (Fin a) NegInf = Fin 0"
| "js_div PosInf (Fin b) = (if 0 \<le> b then PosInf else NegInf)"
| "js_div NegInf (Fin b) = (if 0 \<le> b then NegInf else PosInf)"
| "js_div PosInf PosInf = NaN"
| "js_div PosInf NegInf = NaN"
| "js_div NegInf PosInf = NaN"
| "js_div NegInf NegInf = NaN"
| "js_div NaN y = NaN"
| "js_div x NaN = NaN"

text \<open>The operator \<open>*\<close>.\<close>

fun js_mul :: "number \<Rightarrow> number \<Rightarrow> number" where
  "js_mul (Fin a) (Fin b) = Fin (a * b)"
| "js_mul (Fin a) PosInf = (if a = 0 then NaN else if 0 < a then PosInf else NegInf)"
| "js_mul (Fin a) NegInf = (if a = 0 then NaN else if 0 < a then NegInf else PosInf)"
| "js_mul PosInf (Fin b) = (if b = 0 then NaN else if 0 < b then PosInf else NegInf)"
| "js_mul NegInf (Fin b) = (if b = 0 then NaN else if 0 < b then NegInf else PosInf)"
| "js_mul PosInf PosInf = PosInf"
| "js_mul PosInf NegInf = NegInf"
| "js_mul NegInf PosInf = NegInf"
| "js_mul NegInf NegInf = PosInf"
| "js_mul NaN y = NaN"
| "js_mul x NaN = NaN"

text \<open>The binary operator \<open>-\<close>.\<close>

fun js_sub :: "number \<Rightarrow> number \<Rightarrow> number" where
  "js_sub (Fin a) (Fin b) = Fin (a - b)"
| "js_sub (Fin a) PosInf = NegInf"
| "js_sub (Fin a) NegInf = PosInf"
| "js_sub PosInf (Fin b) = PosInf"
| "js_sub NegInf (Fin b) = NegInf"
| "js_sub PosInf PosInf = NaN"
| "js_sub PosInf NegInf = PosInf"
| "js_sub NegInf PosInf = NegInf"
| "js_sub NegInf NegInf = NaN"
| "js_sub NaN y = NaN"
| "js_sub x NaN = NaN"

text \<open>The operator \<open>>\<close> on numbers: every comparison with NaN is false.\<close>

fun js_gt :: "number \<Rightarrow> number \<Rightarrow> bool" where
  "js_gt (Fin a) (Fin b) = (b < a)"
| "js_gt (Fin a) PosInf = False"
| "js_gt (Fin a) NegInf = True"
| "js_gt PosInf (Fin b) = True"
| "js_gt PosInf PosInf = False"
| "js_gt PosInf NegInf = True"
| "js_gt NegInf y = False"
| "js_gt NaN y = False"
| "js_gt x NaN = False"

text \<open>\<open>Math.max\<close> and \<open>Math.min\<close> of two arguments: NaN if either is NaN.\<close>

fun Math_max :: "number \<Rightarrow> number \<Rightarrow> number" where
  "Math_max NaN y = NaN"
| "Math_max x NaN = NaN"
| "Math_max x y = (if js_gt y x then y else x)"

fun Math_min :: "number \<Rightarrow> number \<Rightarrow> number" where
  "Math_min NaN y = NaN"
| "Math_min x NaN = NaN"
| "Math_min x y = (if js_gt x y then y else x)"

text \<open>\<open>Math.round\<close>: the nearest integer, a tie going towards \<open>+\<infinity>\<close>.\<close>

fun Math_round :: "number \<Rightarrow> number" where
  "Math_round (Fin a) = Fin (of_int \<lfloor>a + 1 / 2\<rfloor>)"
| "Math_round x = x"

subsection \<open>Rounding to binary64\<close>

text \<open>
  The number of binary digits of a natural number, and from it the binary exponent of a
  positive real: the \<open>e\<close> with \<open>2 powi e \<le> x < 2 powi (e + 1)\<close>.
\<close>

fun bit_length :: "nat \<Rightarrow> nat" where
  "bit_length n = (if n = 0 then 0 else Suc (bit_length (n div 2)))"

declare bit_length.simps [simp del]

definition exponent2 :: "real \<Rightarrow> int" where
  "exponent2 x =
     (if 1 \<le> x then int (bit_length (nat \<lfloor>x\<rfloor>)) - 1
      else - int (bit_length (nat (\<lceil>1 / x\<rceil> - 1))))"

text \<open>The nearest integer, a tie going to the even one.\<close>

definition round_ties_even :: "real \<Rightarrow> int" where
  "round_ties_even x =
     (let f = \<lfloor>x\<rfloor>; d = x - of_int f
      in if d < 1 / 2 then f else if 1 / 2 < d then f + 1 else if even f then f else f + 1)"

text \<open>
  The binary64 value nearest to a positive real, ties to even: a multiple of
  \<open>2 powi (e - 52)\<close>, where \<open>e\<close> is the exponent of the real and at least -1022
  (below that the values are subnormal); Infinity from \<open>2 ^ 1024\<close> on.
\<close>

definition binary64_pos :: "real \<Rightarrow> number" where
  "binary64_pos x =
     (let e = max (exponent2 x) (- 1022);
          q = 2 powi (e - 52);
          y = of_int (round_ties_even (x / q)) * q
      in if 2 ^ 1024 \<le> y then PosInf else Fin y)"

fun binary64 :: "number \<Rightarrow> number" where
  "binary64 (Fin x) =
     (if x = 0 then Fin 0
      else if 0 < x then binary64_pos x
      else (case binary64_pos (- x) of Fin y \<Rightarrow> Fin (- y) | PosInf \<Rightarrow> NegInf | n \<Rightarrow> n))"
| "binary64 n = n"

declare binary64.simps [simp del]

text \<open>\<open>isNaN\<close> and the truthiness of a number (\<open>0\<close> and NaN are falsy).\<close>

fun isNaN :: "number \<Rightarrow> bool" where
  "isNaN NaN = True"
| "isNaN x = False"

fun truthy_number :: "number \<Rightarrow> bool" where
  "truthy_number (Fin a) = (a \<noteq> 0)"
| "truthy_number NaN = False"
| "truthy_number x = True"

section \<open>JavaScript values and strings\<close>

text \<open>
  The values a caller can pass where the library expects a string or a number. Objects
  and functions are opaque. A string is a list of code units below 256.
\<close>

datatype jsval = JUndefined | JNull | JBool bool | JNum number | JStr string | JObject | JFunction

fun truthy :: "jsval \<Rightarrow> bool" where
  "truthy JUndefined = False"
| "truthy JNull = False"
| "truthy (JBool b) = b"
| "truthy (JNum n) = truthy_number n"
| "truthy (JStr s) = (s \<noteq> [])"
| "truthy JObject = True"
| "truthy JFunction = True"

fun typeof :: "jsval \<Rightarrow> string" where
  "typeof JUndefined = ''undefined''"
| "typeof JNull = ''object''"
| "typeof (JBool b) = ''boolean''"
| "typeof (JNum n) = ''number''"
| "typeof (JStr s) = ''string''"
| "typeof JObject = ''object''"
| "typeof JFunction = ''function''"

text \<open>
  \<open>String.prototype.toLowerCase\<close> on code units below 256: \<open>A\<close>..\<open>Z\<close> and the
  capital letters U+00C0..U+00DE (the multiplication sign U+00D7 apart) move up by 32,
  every other code unit stays.
\<close>

definition toLowerCase_char :: "char \<Rightarrow> char" where
  "toLowerCase_char c =
     (let n = (of_char c :: nat)
      in if (65 \<le> n \<and> n \<le> 90) \<or> (192 \<le> n \<and> n \<le> 222 \<and> n \<noteq> 215)
         then char_of (n + 32) else c)"

definition toLowerCase :: "string \<Rightarrow> string" where
  "toLowerCase s = map toLowerCase_char s"

text \<open>\<open>String.prototype.split\<close> with a one-character separator.\<close>

fun split :: "string \<Rightarrow> char \<Rightarrow> string list" where
  "split [] sep = [[]]"
| "split (c # cs) sep =
     (if c = sep then [] # split cs sep
      else (case split cs sep of [] \<Rightarrow> [[c]] | p # ps \<Rightarrow> (c # p) # ps))"

subsection \<open>parseFloat\<close>

text \<open>
  \<open>parseFloat\<close> skips leading white space and reads the longest prefix that is a
  decimal literal: an optional sign, then \<open>Infinity\<close>, or digits with an optional
  fraction and an optional exponent; NaN when there is no such prefix. The value is the
  exact decimal value (no rounding to binary64, no overflow to Infinity).
\<close>

definition StrWhiteSpaceChar :: "char \<Rightarrow> bool" where
  "StrWhiteSpaceChar c = ((of_char c :: nat) \<in> {9, 10, 11, 12, 13, 32, 160})"

definition is_digit :: "char \<Rightarrow> bool" where
  "is_digit c = (48 \<le> (of_char c :: nat) \<and> (of_char c :: nat) \<le> 57)"

definition digits_val :: "string \<Rightarrow> nat" where
  "digits_val ds = foldl (\<lambda>acc c. 10 * acc + (of_char c - 48)) 0 ds"

definition parse_sign :: "string \<Rightarrow> bool \<times> string" where
  "parse_sign s =
     (case s of
        [] \<Rightarrow> (False, [])
      | c # r \<Rightarrow> if c = CHR ''-'' then (True, r) else if c = CHR ''+'' then (False, r)
                 else (False, s))"

definition parse_exponent :: "string \<Rightarrow> int" where
  "parse_exponent s =
     (case s of
        [] \<Rightarrow> 0
      | c # r \<Rightarrow>
          if c = CHR ''e'' \<or> c = CHR ''E''
          then (let (neg, r') = parse_sign r; ds = takeWhile is_digit r'
                in if ds = [] then 0
                   else if neg then - int (digits_val ds) else int (digits_val ds))
          else 0)"

definition pow10 :: "int \<Rightarrow> real" where
  "pow10 e = (if 0 \<le> e then 10 ^ nat e else 1 / 10 ^ nat (- e))"

definition parseFloat :: "string \<Rightarrow> number" where
  "parseFloat s =
     (let (neg, body) = parse_sign (dropWhile StrWhiteSpaceChar s)
      in if take 8 body = ''Infinity'' then (if neg then NegInf else PosInf)
         else
           (let ip = takeWhile is_digit body;
                r1 = dropWhile is_digit body;
                (fp, r2) = (case r1 of
                              [] \<Rightarrow> ([], [])
                            | c # r \<Rightarrow> if c = CHR ''.''
                                       then (takeWhile is_digit r, dropWhile is_digit r)
                                       else ([], r1))
            in if ip = [] \<and> fp = [] then NaN
               else
                 (let v = (real (digits_val ip) + real (digits_val fp) / 10 ^ length fp)
                          * pow10 (parse_exponent r2)
                  in Fin (if neg then - v else v))))"

subsection \<open>parseAspectRatio (utils/helpers.js)\<close>

text \<open>The result is the quotient as a number, or \<open>null\<close>.\<close>

definition parseAspectRatio :: "jsval \<Rightarrow> jsval" where
  "parseAspectRatio ratio =
     (if \<not> truthy ratio \<or> typeof ratio \<noteq> ''string'' then JNull
      else (case ratio of
              JStr s \<Rightarrow>
                (let parts = split s CHR '':''
                 in if length parts \<noteq> 2 then JNull
                    else
                      (let width = parseFloat (parts ! 0);
                           height = parseFloat (parts ! 1)
                       in if isNaN width \<or> isNaN height \<or> height = Fin 0 then JNull
                          else JNum (js_div width height)))
            | _ \<Rightarrow> JNull))"

section \<open>Display modes (core/modes.js)\<close>

definition MODES_PROPORTIONAL :: string where
  "MODES_PROPORTIONAL = ''proportional''"

definition MODES_FULLSCREEN :: string where
  "MODES_FULLSCREEN = ''fullscreen''"

text \<open>\<open>Object.values(MODES)\<close>.\<close>

definition MODES_values :: "string list" where
  "MODES_values = [MODES_PROPORTIONAL, MODES_FULLSCREEN]"

definition validateMode :: "jsval \<Rightarrow> string" where
  "validateMode mode =
     (if \<not> truthy mode \<or> typeof mode \<noteq> ''string'' then MODES_PROPORTIONAL
      else (case mode of
              JStr s \<Rightarrow>
                (let normalizedMode = toLowerCase s
                 in if normalizedMode \<in> set MODES_values then normalizedMode
                    else MODES_PROPORTIONAL)
            | _ \<Rightarrow> MODES_PROPORTIONAL))"

section \<open>Scale calculator (utils/helpers.js)\<close>

text \<open>
  \<^verbatim>\<open>calculateScale(containerWidth, containerHeight, contentWidth, contentHeight, cover)\<close>:
  the two ratios, and the larger of them when \<open>cover\<close>, else the smaller.
\<close>

definition calculateScale :: "number \<Rightarrow> number \<Rightarrow> number \<Rightarrow> number \<Rightarrow> bool \<Rightarrow> number" where
  "calculateScale containerWidth containerHeight contentWidth contentHeight cover =
     (let widthRatio = js_div containerWidth contentWidth;
          heightRatio = js_div containerHeight contentHeight
      in if cover then Math_max widthRatio heightRatio else Math_min widthRatio heightRatio)"

text \<open>
  \<^verbatim>\<open>calculateNonProportionalScale\<close> of the later revision (dist/fitscreen.esm.js):
  the two ratios, independently.
\<close>

record scale_pair =
  scaleX :: number
  scaleY :: number

definition calculateNonProportionalScale ::
  "number \<Rightarrow> number \<Rightarrow> number \<Rightarrow> number \<Rightarrow> scale_pair" where
  "calculateNonProportionalScale containerWidth containerHeight contentWidth contentHeight =
     \<lparr>scaleX = js_div containerWidth contentWidth,
      scaleY = js_div containerHeight contentHeight\<rparr>"

text \<open>
  A letter-case variant of a lower-case word: the same length, each code unit either the
  word's own or the capital 32 below it.
\<close>

definition is_lower_ascii :: "char \<Rightarrow> bool" where
  "is_lower_ascii d = (97 \<le> (of_char d :: nat) \<and> (of_char d :: nat) \<le> 122)"

definition case_variant :: "string \<Rightarrow> string \<Rightarrow> bool" where
  "case_variant s t = list_all2 (\<lambda>c d. c = d \<or> (of_char c :: nat) + 32 = of_char d) s t"

section \<open>Elements, sizes and options\<close>

text \<open>
  What the library reads of the display surface. An element is given by the values of
  the properties the code reads; layout itself is not modelled. \<open>offsetWidth\<close>,
  \<open>offsetHeight\<close>, \<open>innerWidth\<close> and \<open>innerHeight\<close> are non-negative integers;
  the edges of a bounding rectangle are finite numbers.
\<close>

record rect =
  rect_left :: real
  rect_top :: real
  rect_right :: real
  rect_bottom :: real

record element =
  offsetWidth :: nat
  offsetHeight :: nat
  computedWidth :: string \<comment> \<open>\<open>getComputedStyle(element).width\<close>\<close>
  computedHeight :: string
  styleWidth :: string \<comment> \<open>\<open>element.style.width\<close>, empty when not set\<close>
  styleHeight :: string
  boundingRect :: rect \<comment> \<open>\<open>element.getBoundingClientRect()\<close>\<close>
  childRects :: "rect list" \<comment> \<open>the bounding rectangles of \<open>element.children\<close>\<close>

record window =
  innerWidth :: nat
  innerHeight :: nat

record dimensions =
  width :: number
  height :: number

text \<open>
  The configuration object. A configured size is a number or absent (\<open>None\<close> is
  \<open>undefined\<close>); the aspect ratio and the mode are arbitrary values, since the code tests
  their type; a callback is a value that is a function or not.
\<close>

record options =
  designWidth :: "number option"
  designHeight :: "number option"
  aspectRatio :: jsval
  autoDetect :: bool
  detectedWidth :: "number option"
  detectedHeight :: "number option"
  mode :: jsval
  onResize :: jsval
  onModeChange :: jsval

text \<open>Truthiness and \<open>ToNumber\<close> of a value that is a number or \<open>undefined\<close>.\<close>

fun truthy_opt :: "number option \<Rightarrow> bool" where
  "truthy_opt None = False"
| "truthy_opt (Some n) = truthy_number n"

fun ToNumber_opt :: "number option \<Rightarrow> number" where
  "ToNumber_opt None = NaN"
| "ToNumber_opt (Some n) = n"

section \<open>Size detection (utils/helpers.js, core/detector.js)\<close>

text \<open>
  \<^verbatim>\<open>detectElementSize(element)\<close>: the computed size if both dimensions are positive,
  else the inline size if both are set and positive, else the larger of the computed
  size and the extent of the children.
\<close>

definition childrenBounds :: "rect list \<Rightarrow> number \<times> number" where
  "childrenBounds rs =
     foldl (\<lambda>(bounds_right, bounds_bottom) r.
              (Math_max bounds_right (Fin (rect_right r)),
               Math_max bounds_bottom (Fin (rect_bottom r))))
           (Fin 0, Fin 0) rs"

definition detectElementSize :: "element option \<Rightarrow> dimensions" where
  "detectElementSize element =
     (case element of
        None \<Rightarrow> \<lparr>width = Fin 0, height = Fin 0\<rparr>
      | Some e \<Rightarrow>
          (let w0 = parseFloat (computedWidth e);
               h0 = parseFloat (computedHeight e)
           in if \<not> isNaN w0 \<and> \<not> isNaN h0 \<and> js_gt w0 (Fin 0) \<and> js_gt h0 (Fin 0)
              then \<lparr>width = w0, height = h0\<rparr>
              else
                (let inlineWidth = styleWidth e;
                     inlineHeight = styleHeight e;
                     w = parseFloat inlineWidth;
                     h = parseFloat inlineHeight
                 in if inlineWidth \<noteq> [] \<and> inlineHeight \<noteq> [] \<and>
                       \<not> isNaN w \<and> \<not> isNaN h \<and> js_gt w (Fin 0) \<and> js_gt h (Fin 0)
                    then \<lparr>width = w, height = h\<rparr>
                    else
                      (let (bounds_right, bounds_bottom) = childrenBounds (childRects e);
                           parentRect = boundingRect e
                       in \<lparr>width = Math_max w0 (js_sub bounds_right (Fin (rect_left parentRect))),
                           height = Math_max h0 (js_sub bounds_bottom (Fin (rect_top parentRect)))\<rparr>))))"

definition DEFAULT_DESIGN_WIDTH :: number where
  "DEFAULT_DESIGN_WIDTH = Fin 1920"

definition DEFAULT_DESIGN_HEIGHT :: number where
  "DEFAULT_DESIGN_HEIGHT = Fin 1080"

definition detectScreenSize :: "window \<Rightarrow> dimensions" where
  "detectScreenSize win =
     \<lparr>width = Fin (real (innerWidth win)), height = Fin (real (innerHeight win))\<rparr>"

text \<open>
  \<^verbatim>\<open>determineDesignSize(options, container, content)\<close>, with the window it reads as
  a parameter. The branches are the source's, in its order. In the aspect-ratio branch
  the ratio, the quotient that is compared with it and the operands of
  \<open>Math.round\<close> are binary64 values, as they are in the code.
\<close>

definition determineDesignSize ::
  "window \<Rightarrow> options \<Rightarrow> element option \<Rightarrow> element option \<Rightarrow> dimensions" where
  "determineDesignSize win opts container content =
     (if truthy_opt (designWidth opts) \<and> truthy_opt (designHeight opts) \<and>
         \<not> isNaN (ToNumber_opt (designWidth opts)) \<and>
         \<not> isNaN (ToNumber_opt (designHeight opts)) \<and>
         js_gt (ToNumber_opt (designWidth opts)) (Fin 0) \<and>
         js_gt (ToNumber_opt (designHeight opts)) (Fin 0)
      then \<lparr>width = ToNumber_opt (designWidth opts), height = ToNumber_opt (designHeight opts)\<rparr>
      else if truthy (aspectRatio opts) \<and> typeof (aspectRatio opts) = ''number'' \<and>
              (case aspectRatio opts of JNum r \<Rightarrow> js_gt r (Fin 0) | _ \<Rightarrow> False)
      then
        (let r = binary64 (case aspectRatio opts of JNum r \<Rightarrow> r | _ \<Rightarrow> NaN);
             containerSize =
               (case container of
                  Some c \<Rightarrow> \<lparr>width = Fin (real (offsetWidth c)),
                              height = Fin (real (offsetHeight c))\<rparr>
                | None \<Rightarrow> detectScreenSize win)
         in if js_gt (binary64 (js_div (width containerSize) (height containerSize))) r
            then \<lparr>width = Math_round (binary64 (js_mul (height containerSize) r)),
                  height = height containerSize\<rparr>
            else \<lparr>width = width containerSize,
                  height = Math_round (binary64 (js_div (width containerSize) r))\<rparr>)
      else if truthy_opt (detectedWidth opts) \<and> truthy_opt (detectedHeight opts) \<and>
              js_gt (ToNumber_opt (detectedWidth opts)) (Fin 0) \<and>
              js_gt (ToNumber_opt (detectedHeight opts)) (Fin 0)
      then \<lparr>width = ToNumber_opt (detectedWidth opts),
            height = ToNumber_opt (detectedHeight opts)\<rparr>
      else if autoDetect opts \<and> content \<noteq> None \<and>
              js_gt (width (detectElementSize content)) (Fin 0) \<and>
              js_gt (height (detectElementSize content)) (Fin 0)
      then detectElementSize content
      else
        (case container of
           Some c \<Rightarrow>
             if js_gt (Fin (real (offsetWidth c))) (Fin 0) \<and>
                js_gt (Fin (real (offsetHeight c))) (Fin 0)
             then \<lparr>width = Fin (real (offsetWidth c)), height = Fin (real (offsetHeight c))\<rparr>
             else \<lparr>width = DEFAULT_DESIGN_WIDTH, height = DEFAULT_DESIGN_HEIGHT\<rparr>
         | None \<Rightarrow> \<lparr>width = DEFAULT_DESIGN_WIDTH, height = DEFAULT_DESIGN_HEIGHT\<rparr>))"

text \<open>\<^verbatim>\<open>FitScreenJS._normalizeOptions\<close>: a string aspect ratio is parsed.\<close>

definition normalizeOptions :: "options \<Rightarrow> options" where
  "normalizeOptions opts =
     (if truthy (aspectRatio opts) \<and> typeof (aspectRatio opts) = ''string''
      then opts\<lparr>aspectRatio := parseAspectRatio (aspectRatio opts)\<rparr>
      else opts)"

section \<open>The resolver as the specification words it\<close>

text \<open>
  A size is valid when its width and its height are both numbers greater than 0. The
  specification's resolver takes the first valid candidate of five, else the default
  1920 by 1080. The viewport of the aspect-ratio candidate is the container, or the
  window when no container is given; the viewport of the last candidate is the container.
\<close>

definition valid_size :: "dimensions \<Rightarrow> bool" where
  "valid_size s = (js_gt (width s) (Fin 0) \<and> js_gt (height s) (Fin 0))"

fun first_valid :: "dimensions option list \<Rightarrow> dimensions \<Rightarrow> dimensions" where
  "first_valid [] d = d"
| "first_valid (None # cs) d = first_valid cs d"
| "first_valid (Some s # cs) d = (if valid_size s then s else first_valid cs d)"

definition element_size :: "element \<Rightarrow> dimensions" where
  "element_size c = \<lparr>width = Fin (real (offsetWidth c)), height = Fin (real (offsetHeight c))\<rparr>"

definition ratio_viewport :: "window \<Rightarrow> element option \<Rightarrow> dimensions" where
  "ratio_viewport win container =
     (case container of Some c \<Rightarrow> element_size c | None \<Rightarrow> detectScreenSize win)"

text \<open>
  The size the specification derives from a ratio and a viewport: the height is the
  viewport's and the width is rounded when the viewport is wider than the ratio, else
  the width is the viewport's and the height is rounded. The arithmetic is the code's,
  on binary64 values.
\<close>

definition ratio_size :: "number \<Rightarrow> dimensions \<Rightarrow> dimensions" where
  "ratio_size r vp =
     (if js_gt (binary64 (js_div (width vp) (height vp))) (binary64 r)
      then \<lparr>width = Math_round (binary64 (js_mul (height vp) (binary64 r))),
            height = height vp\<rparr>
      else \<lparr>width = width vp,
            height = Math_round (binary64 (js_div (width vp) (binary64 r)))\<rparr>)"

text \<open>The configured ratio when it is a number greater than 0, else absent.\<close>

definition configured_ratio :: "options \<Rightarrow> number option" where
  "configured_ratio opts =
     (case aspectRatio opts of
        JNum r \<Rightarrow> if js_gt r (Fin 0) then Some r else None
      | _ \<Rightarrow> None)"

definition explicit_candidate :: "options \<Rightarrow> dimensions option" where
  "explicit_candidate opts =
     (case (designWidth opts, designHeight opts) of
        (Some w, Some h) \<Rightarrow> Some \<lparr>width = w, height = h\<rparr>
      | _ \<Rightarrow> None)"

definition ratio_candidate :: "window \<Rightarrow> options \<Rightarrow> element option \<Rightarrow> dimensions option" where
  "ratio_candidate win opts container =
     map_option (\<lambda>r. ratio_size r (ratio_viewport win container)) (configured_ratio opts)"

definition detected_candidate :: "options \<Rightarrow> dimensions option" where
  "detected_candidate opts =
     (case (detectedWidth opts, detectedHeight opts) of
        (Some w, Some h) \<Rightarrow> Some \<lparr>width = w, height = h\<rparr>
      | _ \<Rightarrow> None)"

definition measured_candidate :: "options \<Rightarrow> element option \<Rightarrow> dimensions option" where
  "measured_candidate opts content =
     (if autoDetect opts \<and> content \<noteq> None then Some (detectElementSize content) else None)"

definition DEFAULT_DESIGN :: dimensions where
  "DEFAULT_DESIGN = \<lparr>width = DEFAULT_DESIGN_WIDTH, height = DEFAULT_DESIGN_HEIGHT\<rparr>"

definition resolveDesignSize_spec ::
  "window \<Rightarrow> options \<Rightarrow> element option \<Rightarrow> element option \<Rightarrow> dimensions" where
  "resolveDesignSize_spec win opts container content =
     first_valid
       [explicit_candidate opts,
        ratio_candidate win opts container,
        detected_candidate opts,
        measured_candidate opts content,
        map_option element_size container]
       DEFAULT_DESIGN"

text \<open>The empty configuration object, and an element known only by its offset size.\<close>

definition no_options :: options where
  "no_options =
     \<lparr>designWidth = None, designHeight = None, aspectRatio = JUndefined, autoDetect = False,
      detectedWidth = None, detectedHeight = None, mode = JUndefined,
      onResize = JUndefined, onModeChange = JUndefined\<rparr>"

definition plain_element :: "nat \<Rightarrow> nat \<Rightarrow> element" where
  "plain_element w h =
     \<lparr>offsetWidth = w, offsetHeight = h, computedWidth = ''auto'', computedHeight = ''auto'',
      styleWidth = [], styleHeight = [],
      boundingRect = \<lparr>rect_left = 0, rect_top = 0, rect_right = real w, rect_bottom = real h\<rparr>,
      childRects = []\<rparr>"

text \<open>A candidate source that is present and valid.\<close>

definition source_valid :: "dimensions option \<Rightarrow> bool" where
  "source_valid c = (case c of None \<Rightarrow> False | Some s \<Rightarrow> valid_size s)"

section \<open>The scaler (core/scaler.js)\<close>

text \<open>
  The calls the scaler makes to the style-application step and to the configured
  callbacks are recorded, in order, in the field \<open>calls\<close>. The style functions
  themselves only mutate styles and are not modelled further. The mode is a string, as
  documented; \<open>FitScreenJS\<close> only ever passes a validated mode.
\<close>

datatype call =
    ApplyProportionalMode number
  | ApplyFullscreenMode number number number
  | OnResize nat nat number "scale_pair option"
  | OnModeChange string

record scaler =
  options :: options
  container :: "element option"
  content :: "element option"
  designSize :: dimensions
  currentScale :: number
  currentScaleX :: number
  currentScaleY :: number
  currentMode :: string
  isInitialized :: bool
  calls :: "call list"

text \<open>The constructor: \<open>options.mode || MODES.PROPORTIONAL\<close>.\<close>

definition Scaler_new :: "options \<Rightarrow> scaler" where
  "Scaler_new opts =
     \<lparr>options = opts, container = None, content = None,
      designSize = \<lparr>width = Fin 0, height = Fin 0\<rparr>,
      currentScale = Fin 1, currentScaleX = Fin 1, currentScaleY = Fin 1,
      currentMode = (case mode opts of
                       JStr m \<Rightarrow> if truthy (JStr m) then m else MODES_PROPORTIONAL
                     | _ \<Rightarrow> MODES_PROPORTIONAL),
      isInitialized = False, calls = []\<rparr>"

definition setElements :: "scaler \<Rightarrow> element option \<Rightarrow> element option \<Rightarrow> scaler" where
  "setElements s container' content' = s\<lparr>container := container', content := content'\<rparr>"

definition getMode :: "scaler \<Rightarrow> string" where
  "getMode s = currentMode s"

definition getScale :: "scaler \<Rightarrow> number" where
  "getScale s = currentScale s"

text \<open>
  \<^verbatim>\<open>calculateCurrentScale()\<close>: 1 without a container or with a falsy design width or
  height; else the proportional scale, the cover scale in fullscreen mode, where the
  independent pair is stored as well. The result is the returned scale and the state.
\<close>

definition calculateCurrentScale :: "scaler \<Rightarrow> number \<times> scaler" where
  "calculateCurrentScale s =
     (case container s of
        None \<Rightarrow> (Fin 1, s)
      | Some c \<Rightarrow>
          if \<not> truthy_number (width (designSize s)) \<or> \<not> truthy_number (height (designSize s))
          then (Fin 1, s)
          else
            (let containerWidth = Fin (real (offsetWidth c));
                 containerHeight = Fin (real (offsetHeight c));
                 nonProportionalScale =
                   calculateNonProportionalScale containerWidth containerHeight
                     (width (designSize s)) (height (designSize s));
                 s' = (if currentMode s = MODES_FULLSCREEN
                       then s\<lparr>currentScaleX := scaleX nonProportionalScale,
                              currentScaleY := scaleY nonProportionalScale\<rparr>
                       else s)
             in (calculateScale containerWidth containerHeight
                   (width (designSize s)) (height (designSize s))
                   (currentMode s = MODES_FULLSCREEN),
                 s')))"

text \<open>The earlier revision of \<^verbatim>\<open>calculateCurrentScale()\<close>, without the independent pair.\<close>

definition calculateCurrentScale_prev :: "scaler \<Rightarrow> number" where
  "calculateCurrentScale_prev s =
     (case container s of
        None \<Rightarrow> Fin 1
      | Some c \<Rightarrow>
          if \<not> truthy_number (width (designSize s)) \<or> \<not> truthy_number (height (designSize s))
          then Fin 1
          else calculateScale (Fin (real (offsetWidth c))) (Fin (real (offsetHeight c)))
                 (width (designSize s)) (height (designSize s))
                 (currentMode s = MODES_FULLSCREEN))"

definition applyScaling :: "scaler \<Rightarrow> scaler" where
  "applyScaling s =
     (case (container s, content s) of
        (Some c, Some d) \<Rightarrow>
          (let (scale, s1) = calculateCurrentScale s;
               s2 = s1\<lparr>currentScale := scale\<rparr>;
               s3 = (if currentMode s2 = MODES_FULLSCREEN
                     then s2\<lparr>calls := calls s2 @
                            [ApplyFullscreenMode (currentScale s2) (currentScaleX s2)
                               (currentScaleY s2)]\<rparr>
                     else s2\<lparr>calls := calls s2 @ [ApplyProportionalMode (currentScale s2)]\<rparr>)
           in if typeof (onResize (options s3)) = ''function''
              then s3\<lparr>calls := calls s3 @
                     [OnResize (offsetWidth c) (offsetHeight c) (currentScale s3)
                        (if currentMode s3 = MODES_FULLSCREEN
                         then Some \<lparr>scaleX = currentScaleX s3, scaleY = currentScaleY s3\<rparr>
                         else None)]\<rparr>
              else s3)
      | _ \<Rightarrow> s)"

definition refresh :: "scaler \<Rightarrow> scaler" where
  "refresh s =
     (if container s \<noteq> None \<and> content s \<noteq> None
      then (applyScaling s)\<lparr>isInitialized := True\<rparr>
      else s)"

definition setDesignSize :: "scaler \<Rightarrow> number \<Rightarrow> number \<Rightarrow> scaler" where
  "setDesignSize s w h =
     (if js_gt w (Fin 0) \<and> js_gt h (Fin 0)
      then refresh (s\<lparr>designSize := \<lparr>width = w, height = h\<rparr>\<rparr>)
      else s)"

text \<open>
  \<^verbatim>\<open>setMode(mode)\<close>; the value it returns is the \<open>currentMode\<close> of the state
  returned here.
\<close>

definition setMode :: "scaler \<Rightarrow> string \<Rightarrow> scaler" where
  "setMode s mode' =
     (let previousMode = currentMode s;
          s1 = s\<lparr>currentMode := mode'\<rparr>
      in if previousMode \<noteq> currentMode s1 \<and> isInitialized s1
         then (let s2 = refresh s1
               in if typeof (onModeChange (options s2)) = ''function''
                  then s2\<lparr>calls := calls s2 @ [OnModeChange (currentMode s2)]\<rparr>
                  else s2)
         else s1)"

section \<open>The orchestrator (index.js)\<close>

text \<open>
  What the orchestrator does to the window is recorded in \<open>window_calls\<close>. A target
  is what looking a container up gives: nothing, or the container with its content
  wrapper (found, or created around the container's children).
\<close>

datatype window_call = AddResizeListener | RemoveResizeListener | ConsoleError

type_synonym target = "(element \<times> element) option"

record fitscreen =
  fs_options :: options
  fs_scaler :: scaler
  fs_isInitialized :: bool
  isDestroyed :: bool
  window_calls :: "window_call list"

definition FitScreenJS_refresh :: "fitscreen \<Rightarrow> fitscreen" where
  "FitScreenJS_refresh fs = fs\<lparr>fs_scaler := refresh (fs_scaler fs)\<rparr>"

definition FitScreenJS_applyTo :: "window \<Rightarrow> fitscreen \<Rightarrow> target \<Rightarrow> fitscreen" where
  "FitScreenJS_applyTo win fs tgt =
     (case tgt of
        None \<Rightarrow> fs\<lparr>window_calls := window_calls fs @ [ConsoleError]\<rparr>
      | Some (container', content') \<Rightarrow>
          (let sc1 = setElements (fs_scaler fs) (Some container') (Some content');
               designSize' =
                 determineDesignSize win (fs_options fs) (Some container') (Some content');
               sc2 = setDesignSize sc1 (width designSize') (height designSize');
               fs1 = fs\<lparr>fs_scaler := sc2\<rparr>;
               fs2 = (if \<not> fs_isInitialized fs1
                      then fs1\<lparr>window_calls := window_calls fs1 @ [AddResizeListener],
                               fs_isInitialized := True\<rparr>
                      else fs1)
           in FitScreenJS_refresh fs2))"

text \<open>
  The constructor; \<open>tgt\<close> is \<open>None\<close> when \<open>options.container\<close> is not given, else
  what looking it up gives.
\<close>

definition FitScreenJS_new :: "window \<Rightarrow> options \<Rightarrow> target option \<Rightarrow> fitscreen" where
  "FitScreenJS_new win opts tgt =
     (let options' = normalizeOptions opts;
          fs = \<lparr>fs_options = options',
                fs_scaler = Scaler_new (options'\<lparr>mode := JStr (validateMode (mode options'))\<rparr>),
                fs_isInitialized = False, isDestroyed = False, window_calls = []\<rparr>
      in case tgt of None \<Rightarrow> fs | Some t \<Rightarrow> FitScreenJS_applyTo win fs t)"

definition FitScreenJS_setMode :: "fitscreen \<Rightarrow> jsval \<Rightarrow> fitscreen" where
  "FitScreenJS_setMode fs mode' =
     (let validMode = validateMode mode'
      in fs\<lparr>fs_scaler := setMode (fs_scaler fs) validMode\<rparr>)"

definition FitScreenJS_getMode :: "fitscreen \<Rightarrow> string" where
  "FitScreenJS_getMode fs = getMode (fs_scaler fs)"

definition FitScreenJS_getScale :: "fitscreen \<Rightarrow> number" where
  "FitScreenJS_getScale fs = getScale (fs_scaler fs)"

definition FitScreenJS_setDesignSize :: "fitscreen \<Rightarrow> number \<Rightarrow> number \<Rightarrow> fitscreen" where
  "FitScreenJS_setDesignSize fs w h = fs\<lparr>fs_scaler := setDesignSize (fs_scaler fs) w h\<rparr>"

definition FitScreenJS_destroy :: "fitscreen \<Rightarrow> fitscreen" where
  "FitScreenJS_destroy fs =
     (if fs_isInitialized fs \<and> \<not> isDestroyed fs
      then fs\<lparr>window_calls := window_calls fs @ [RemoveResizeListener], isDestroyed := True\<rparr>
      else fs)"

text \<open>
  The resize handler that \<open>applyTo\<close> registers (its debouncing delays the call and is
  not modelled): a refresh unless the instance is destroyed.
\<close>

definition resizeHandler :: "fitscreen \<Rightarrow> fitscreen" where
  "resizeHandler fs = (if \<not> isDestroyed fs then FitScreenJS_refresh fs else fs)"

text \<open>
  The operations a caller, or the window, can perform on an instance, and a run of them.
  The handler can only run once \<open>applyTo\<close> has created it.
\<close>

datatype operation =
    ApplyTo window target
  | SetMode jsval
  | SetDesignSize number number
  | Refresh
  | ResizeEvent
  | Destroy

fun perform :: "fitscreen \<Rightarrow> operation \<Rightarrow> fitscreen" where
  "perform fs (ApplyTo win tgt) = FitScreenJS_applyTo win fs tgt"
| "perform fs (SetMode m) = FitScreenJS_setMode fs m"
| "perform fs (SetDesignSize w h) = FitScreenJS_setDesignSize fs w h"
| "perform fs Refresh = FitScreenJS_refresh fs"
| "perform fs ResizeEvent = (if fs_isInitialized fs then resizeHandler fs else fs)"
| "perform fs Destroy = FitScreenJS_destroy fs"

definition run :: "fitscreen \<Rightarrow> operation list \<Rightarrow> fitscreen" where
  "run fs ops = foldl perform fs ops"

text \<open>A scaler bound to a container of width 0, with the design size 1920 by 1080.\<close>

definition example_scaler :: scaler where
  "example_scaler =
     (Scaler_new no_options)
       \<lparr>container := Some (plain_element 0 600), content := Some (plain_element 1920 1080),
        designSize := \<lparr>width = Fin 1920, height = Fin 1080\<rparr>\<rparr>"

text \<open>A container of 800 by 600 with its content wrapper.\<close>

definition example_target :: target where
  "example_target = Some (plain_element 800 600, plain_element 1920 1080)"

text \<open>The number of times the resize listener has been deregistered.\<close>

definition deregistrations :: "fitscreen \<Rightarrow> nat" where
  "deregistrations fs = count_list (window_calls fs) RemoveResizeListener"

text \<open>The invariant: as many deregistrations as the destroyed flag says.\<close>

definition destroy_inv :: "fitscreen \<Rightarrow> bool" where
  "destroy_inv fs = (deregistrations fs = (if isDestroyed fs then 1 else 0))"

text \<open>The binary64 values nearest to 16/9, 256/135 and 13/6.\<close>

definition double_16_9 :: real where
  "double_16_9 = 2001599834386887 / 1125899906842624"

definition double_256_135 :: real where
  "double_256_135 = 2135039823346013 / 1125899906842624"

definition double_13_6 :: real where
  "double_13_6 = 4878899596318037 / 2251799813685248"

text \<open>
  A scaler that is initialised, bound to a container of 800 by 600, with the design
  size 1920 by 1080 and both callbacks configured, and an orchestrator that holds it.
\<close>

definition example_callbacks_scaler :: scaler where
  "example_callbacks_scaler =
     example_scaler
       \<lparr>options := no_options\<lparr>onResize := JFunction, onModeChange := JFunction\<rparr>,
        container := Some (plain_element 800 600), isInitialized := True\<rparr>"

definition example_fitscreen :: fitscreen where
  "example_fitscreen =
     \<lparr>fs_options = no_options\<lparr>onResize := JFunction, onModeChange := JFunction\<rparr>,
      fs_scaler = example_callbacks_scaler,
      fs_isInitialized = True, isDestroyed = False, window_calls = []\<rparr>"

section \<open>Properties of the scale calculator\<close>

lemma Math_max_Fin: "Math_max (Fin a) (Fin b) = Fin (max a b)"
  by (simp add: max_def)

lemma Math_min_Fin: "Math_min (Fin a) (Fin b) = Fin (min a b)"
  by (simp add: min_def)

lemma calculateScale_Fin:
  assumes "cw \<noteq> 0" and "ch \<noteq> 0"
  shows "calculateScale (Fin vw) (Fin vh) (Fin cw) (Fin ch) cover =
         Fin (if cover then max (vw / cw) (vh / ch) else min (vw / cw) (vh / ch))"
  using assms by (simp add: calculateScale_def Math_max_Fin Math_min_Fin)

text \<open>
  Claim C1. For every viewport size \<open>(vw, vh)\<close> and content size \<open>(cw, ch)\<close> with
  \<open>cw > 0\<close> and \<open>ch > 0\<close>, \<open>calculateScale\<close> returns \<open>max (vw / cw) (vh / ch)\<close> when
  \<open>cover\<close> is true and \<open>min (vw / cw) (vh / ch)\<close> when it is false; the four values of
  the specification are \<open>0.5\<close>, \<open>0.8\<close>, \<open>600 / 900\<close> and \<open>1.2\<close>.
\<close>

theorem calculateScale_max_min:
  "(0 < cw \<and> 0 < ch \<longrightarrow>
      calculateScale (Fin vw) (Fin vh) (Fin cw) (Fin ch) True = Fin (max (vw / cw) (vh / ch)) \<and>
      calculateScale (Fin vw) (Fin vh) (Fin cw) (Fin ch) False = Fin (min (vw / cw) (vh / ch)))
   \<and> calculateScale (Fin 800) (Fin 600) (Fin 1600) (Fin 900) False = Fin (1 / 2)
   \<and> calculateScale (Fin 800) (Fin 600) (Fin 1000) (Fin 500) False = Fin (8 / 10)
   \<and> calculateScale (Fin 800) (Fin 600) (Fin 1600) (Fin 900) True = Fin (600 / 900)
   \<and> calculateScale (Fin 800) (Fin 600) (Fin 1000) (Fin 500) True = Fin (12 / 10)"
proof -
  have general: "0 < cw \<and> 0 < ch \<longrightarrow>
      calculateScale (Fin vw) (Fin vh) (Fin cw) (Fin ch) True = Fin (max (vw / cw) (vh / ch)) \<and>
      calculateScale (Fin vw) (Fin vh) (Fin cw) (Fin ch) False = Fin (min (vw / cw) (vh / ch))"
    by (simp add: calculateScale_Fin)
  have e1: "calculateScale (Fin 800) (Fin 600) (Fin 1600) (Fin 900) False = Fin (1 / 2)"
    by (simp add: calculateScale_Fin)
  have e2: "calculateScale (Fin 800) (Fin 600) (Fin 1000) (Fin 500) False = Fin (8 / 10)"
    by (simp add: calculateScale_Fin)
  have e3: "calculateScale (Fin 800) (Fin 600) (Fin 1600) (Fin 900) True = Fin (600 / 900)"
    by (simp add: calculateScale_Fin)
  have e4: "calculateScale (Fin 800) (Fin 600) (Fin 1000) (Fin 500) True = Fin (12 / 10)"
    by (simp add: calculateScale_Fin)
  from general e1 e2 e3 e4 show ?thesis by blast
qed

theorem calculateScale_max_min_witness:
  "(0::real) < 4 \<and> (0::real) < 3 \<and>
   calculateScale (Fin 8) (Fin 9) (Fin 4) (Fin 3) True = Fin 3 \<and>
   calculateScale (Fin 8) (Fin 9) (Fin 4) (Fin 3) False = Fin 2"
  using calculateScale_max_min [of 4 3 8 9] by simp

section \<open>Properties of the display-mode resolver\<close>

lemma char_of_eq_of_char: "char_of (n::nat) = d \<longleftrightarrow> n mod 256 = of_char d"
  by (metis of_char_of inj_of_char injD)

lemma toLowerCase_char_lower:
  assumes "is_lower_ascii d"
  shows "toLowerCase_char c = d \<longleftrightarrow> c = d \<or> (of_char c :: nat) + 32 = of_char d"
proof -
  have lt: "(of_char c :: nat) < 256" by (rule String.nat_of_char_less_256)
  show ?thesis
  proof (cases "(65 \<le> (of_char c :: nat) \<and> (of_char c :: nat) \<le> 90) \<or>
                (192 \<le> (of_char c :: nat) \<and> (of_char c :: nat) \<le> 222 \<and> (of_char c :: nat) \<noteq> 215)")
    case True
    then have "toLowerCase_char c = char_of ((of_char c :: nat) + 32)"
      by (simp add: toLowerCase_char_def)
    moreover have "((of_char c :: nat) + 32) mod 256 = of_char c + 32"
      using True by auto
    moreover have "c \<noteq> d" using True assms by (auto simp: is_lower_ascii_def)
    ultimately show ?thesis by (simp add: char_of_eq_of_char)
  next
    case False
    then have "toLowerCase_char c = c" by (auto simp add: toLowerCase_char_def Let_def)
    moreover have "(of_char c :: nat) + 32 \<noteq> of_char d"
      using False assms lt by (auto simp: is_lower_ascii_def)
    ultimately show ?thesis by simp
  qed
qed

lemma toLowerCase_eq_iff:
  "\<forall>d\<in>set t. is_lower_ascii d \<Longrightarrow> toLowerCase s = t \<longleftrightarrow> case_variant s t"
proof (induction s arbitrary: t)
  case Nil
  then show ?case by (auto simp: toLowerCase_def case_variant_def)
next
  case (Cons c s)
  show ?case
  proof (cases t)
    case Nil
    then show ?thesis by (simp add: toLowerCase_def case_variant_def)
  next
    case (Cons d t')
    with Cons.prems have d: "is_lower_ascii d" and t': "\<forall>d\<in>set t'. is_lower_ascii d"
      by simp_all
    from Cons.IH [OF t'] have "map toLowerCase_char s = t' \<longleftrightarrow> case_variant s t'"
      by (simp add: toLowerCase_def)
    with toLowerCase_char_lower [OF d, of c] Cons show ?thesis
      by (simp add: toLowerCase_def case_variant_def)
  qed
qed

lemma lower_fullscreen: "\<forall>d\<in>set MODES_FULLSCREEN. is_lower_ascii d"
  by (simp add: MODES_FULLSCREEN_def is_lower_ascii_def)

lemma lower_proportional: "\<forall>d\<in>set MODES_PROPORTIONAL. is_lower_ascii d"
  by (simp add: MODES_PROPORTIONAL_def is_lower_ascii_def)

lemma validateMode_JStr:
  "validateMode (JStr s) =
     (if case_variant s MODES_FULLSCREEN then MODES_FULLSCREEN else MODES_PROPORTIONAL)"
proof -
  have ne: "MODES_FULLSCREEN \<noteq> []" "MODES_PROPORTIONAL \<noteq> []"
    by (simp_all add: MODES_FULLSCREEN_def MODES_PROPORTIONAL_def)
  have "s = [] \<Longrightarrow> \<not> case_variant s MODES_FULLSCREEN"
    by (simp add: case_variant_def MODES_FULLSCREEN_def)
  then show ?thesis
    using toLowerCase_eq_iff [OF lower_fullscreen, of s]
    by (auto simp: validateMode_def MODES_values_def Let_def)
qed

lemma validateMode_not_string: "(\<forall>s. v \<noteq> JStr s) \<Longrightarrow> validateMode v = MODES_PROPORTIONAL"
  by (cases v) (simp_all add: validateMode_def)

lemma modes_distinct: "MODES_PROPORTIONAL \<noteq> MODES_FULLSCREEN"
  by (simp add: MODES_PROPORTIONAL_def MODES_FULLSCREEN_def)

lemma case_variant_distinct:
  "case_variant s MODES_PROPORTIONAL \<Longrightarrow> \<not> case_variant s MODES_FULLSCREEN"
proof
  assume p: "case_variant s MODES_PROPORTIONAL" and f: "case_variant s MODES_FULLSCREEN"
  from p have "length s = length MODES_PROPORTIONAL"
    unfolding case_variant_def by (rule list_all2_lengthD)
  moreover from f have "length s = length MODES_FULLSCREEN"
    unfolding case_variant_def by (rule list_all2_lengthD)
  ultimately show False by (simp add: MODES_PROPORTIONAL_def MODES_FULLSCREEN_def)
qed

text \<open>
  Claim C7. \<open>validateMode\<close> is total and returns one of the two mode constants: the
  matching constant for either canonical string in any letter case, and
  \<open>proportional\<close> for every other input, a string or not.
\<close>

theorem validateMode_total:
  "validateMode v \<in> {MODES_PROPORTIONAL, MODES_FULLSCREEN}
   \<and> (\<forall>s. case_variant s MODES_FULLSCREEN \<longrightarrow> validateMode (JStr s) = MODES_FULLSCREEN)
   \<and> (\<forall>s. case_variant s MODES_PROPORTIONAL \<longrightarrow> validateMode (JStr s) = MODES_PROPORTIONAL)
   \<and> ((\<forall>s. v = JStr s \<longrightarrow> \<not> case_variant s MODES_FULLSCREEN) \<longrightarrow>
        validateMode v = MODES_PROPORTIONAL)"
proof -
  have a: "validateMode v \<in> {MODES_PROPORTIONAL, MODES_FULLSCREEN}"
    by (cases v) (simp_all add: validateMode_JStr validateMode_not_string)
  have b: "\<forall>s. case_variant s MODES_FULLSCREEN \<longrightarrow> validateMode (JStr s) = MODES_FULLSCREEN"
    by (simp add: validateMode_JStr)
  have c: "\<forall>s. case_variant s MODES_PROPORTIONAL \<longrightarrow> validateMode (JStr s) = MODES_PROPORTIONAL"
    using case_variant_distinct by (simp add: validateMode_JStr)
  have d: "(\<forall>s. v = JStr s \<longrightarrow> \<not> case_variant s MODES_FULLSCREEN) \<longrightarrow>
        validateMode v = MODES_PROPORTIONAL"
    by (cases v) (simp_all add: validateMode_JStr validateMode_not_string)
  from a b c d show ?thesis by blast
qed

theorem validateMode_total_witness:
  "case_variant ''FullScreen'' MODES_FULLSCREEN
   \<and> validateMode (JStr ''FullScreen'') = ''fullscreen''
   \<and> case_variant ''PROPORTIONAL'' MODES_PROPORTIONAL
   \<and> validateMode (JStr ''PROPORTIONAL'') = ''proportional''
   \<and> validateMode (JNum (Fin 123)) = ''proportional''"
  using validateMode_total [of "JNum (Fin 123)"]
  by (simp add: case_variant_def MODES_FULLSCREEN_def MODES_PROPORTIONAL_def)

section \<open>Properties of the aspect-ratio parser\<close>

lemma split_not_Nil: "split s sep \<noteq> []"
  by (induction s) (auto split: list.splits)

lemma split_no_sep: "sep \<notin> set s \<Longrightarrow> split s sep = [s]"
  by (induction s) auto

lemma split_append: "sep \<notin> set a \<Longrightarrow> split (a @ sep # b) sep = a # split b sep"
  by (induction a) auto

lemma length_split: "length (split s sep) = Suc (count_list s sep)"
  by (induction s) (auto split: list.splits simp: split_not_Nil)

lemma split_two: "sep \<notin> set a \<Longrightarrow> sep \<notin> set b \<Longrightarrow> split (a @ sep # b) sep = [a, b]"
  by (simp add: split_append split_no_sep)

lemma parseAspectRatio_not_string: "(\<forall>s. v \<noteq> JStr s) \<Longrightarrow> parseAspectRatio v = JNull"
  by (cases v) (simp_all add: parseAspectRatio_def)

lemma parseAspectRatio_colons:
  "count_list s CHR '':'' \<noteq> 1 \<Longrightarrow> parseAspectRatio (JStr s) = JNull"
  by (simp add: parseAspectRatio_def length_split Let_def)

lemma parseAspectRatio_two:
  assumes "CHR '':'' \<notin> set a" and "CHR '':'' \<notin> set b"
  shows "parseAspectRatio (JStr (a @ CHR '':'' # b)) =
         (if isNaN (parseFloat a) \<or> isNaN (parseFloat b) \<or> parseFloat b = Fin 0 then JNull
          else JNum (js_div (parseFloat a) (parseFloat b)))"
  using assms by (simp add: parseAspectRatio_def split_two Let_def)

lemma js_div_Fin: "y \<noteq> 0 \<Longrightarrow> js_div (Fin x) (Fin y) = Fin (x / y)"
  by simp

text \<open>
  Claim C6. For a string \<open>a:b\<close> whose halves both parse as numbers, the second not
  to zero, \<open>parseAspectRatio\<close> returns the quotient of the two; for the empty string,
  a value that is not a string, a string without exactly one colon, a half that does not
  parse, or a zero denominator, it returns \<open>null\<close>.
\<close>

theorem parseAspectRatio_spec:
  "(CHR '':'' \<notin> set a \<and> CHR '':'' \<notin> set b \<and>
      \<not> isNaN (parseFloat a) \<and> \<not> isNaN (parseFloat b) \<and> parseFloat b \<noteq> Fin 0 \<longrightarrow>
      parseAspectRatio (JStr (a @ CHR '':'' # b)) = JNum (js_div (parseFloat a) (parseFloat b)))
   \<and> (CHR '':'' \<notin> set a \<and> CHR '':'' \<notin> set b \<and>
      parseFloat a = Fin x \<and> parseFloat b = Fin y \<and> y \<noteq> 0 \<longrightarrow>
      parseAspectRatio (JStr (a @ CHR '':'' # b)) = JNum (Fin (x / y)))
   \<and> parseAspectRatio (JStr []) = JNull
   \<and> ((\<forall>s. v \<noteq> JStr s) \<longrightarrow> parseAspectRatio v = JNull)
   \<and> (count_list s CHR '':'' \<noteq> 1 \<longrightarrow> parseAspectRatio (JStr s) = JNull)
   \<and> (CHR '':'' \<notin> set a \<and> CHR '':'' \<notin> set b \<and>
      (isNaN (parseFloat a) \<or> isNaN (parseFloat b) \<or> parseFloat b = Fin 0) \<longrightarrow>
      parseAspectRatio (JStr (a @ CHR '':'' # b)) = JNull)"
proof -
  have p1: "CHR '':'' \<notin> set a \<and> CHR '':'' \<notin> set b \<and>
      \<not> isNaN (parseFloat a) \<and> \<not> isNaN (parseFloat b) \<and> parseFloat b \<noteq> Fin 0 \<longrightarrow>
      parseAspectRatio (JStr (a @ CHR '':'' # b)) = JNum (js_div (parseFloat a) (parseFloat b))"
    by (simp add: parseAspectRatio_two)
  have p2: "CHR '':'' \<notin> set a \<and> CHR '':'' \<notin> set b \<and>
      parseFloat a = Fin x \<and> parseFloat b = Fin y \<and> y \<noteq> 0 \<longrightarrow>
      parseAspectRatio (JStr (a @ CHR '':'' # b)) = JNum (Fin (x / y))"
    by (simp add: parseAspectRatio_two)
  have p3: "parseAspectRatio (JStr []) = JNull"
    by (simp add: parseAspectRatio_def)
  have p4: "(\<forall>s. v \<noteq> JStr s) \<longrightarrow> parseAspectRatio v = JNull"
    by (simp add: parseAspectRatio_not_string)
  have p5: "count_list s CHR '':'' \<noteq> 1 \<longrightarrow> parseAspectRatio (JStr s) = JNull"
    by (simp add: parseAspectRatio_colons)
  have p6: "CHR '':'' \<notin> set a \<and> CHR '':'' \<notin> set b \<and>
      (isNaN (parseFloat a) \<or> isNaN (parseFloat b) \<or> parseFloat b = Fin 0) \<longrightarrow>
      parseAspectRatio (JStr (a @ CHR '':'' # b)) = JNull"
    by (simp add: parseAspectRatio_two)
  from p1 p2 p3 p4 p5 p6 show ?thesis by blast
qed

lemma parseFloat_16: "parseFloat ''16'' = Fin 16"
  by (simp add: parseFloat_def parse_sign_def is_digit_def digits_val_def StrWhiteSpaceChar_def parse_exponent_def pow10_def)

lemma parseFloat_9: "parseFloat ''9'' = Fin 9"
  by (simp add: parseFloat_def parse_sign_def is_digit_def digits_val_def StrWhiteSpaceChar_def parse_exponent_def pow10_def)

lemma parseFloat_0: "parseFloat ''0'' = Fin 0"
  by (simp add: parseFloat_def parse_sign_def is_digit_def digits_val_def StrWhiteSpaceChar_def parse_exponent_def pow10_def)

lemma parseFloat_abc: "parseFloat ''abc'' = NaN"
  by (simp add: parseFloat_def parse_sign_def is_digit_def digits_val_def StrWhiteSpaceChar_def parse_exponent_def pow10_def)

theorem parseAspectRatio_spec_witness:
  "parseAspectRatio (JStr ''16:9'') = JNum (Fin (16 / 9))
   \<and> parseAspectRatio (JStr ''16:0'') = JNull
   \<and> parseAspectRatio (JStr ''abc'') = JNull
   \<and> parseAspectRatio JNull = JNull"
  using parseAspectRatio_spec [of "''16''" "''9''" 16 9 JNull "''abc''"]
    parseAspectRatio_spec [of "''16''" "''0''" 16 0 JNull "''abc''"]
  by (simp add: parseFloat_16 parseFloat_9 parseFloat_0)

section \<open>Properties of binary64 rounding\<close>

text \<open>The equations that evaluate \<open>binary64\<close> at a numeral.\<close>

lemmas binary64_eval =
  binary64.simps binary64_pos_def exponent2_def round_ties_even_def bit_length.simps Let_def

lemma binary64_special:
  "binary64 NaN = NaN" "binary64 PosInf = PosInf" "binary64 NegInf = NegInf"
  "binary64 (Fin 0) = Fin 0"
  by (simp_all add: binary64.simps)

lemma bit_length_bounds:
  "0 < n \<Longrightarrow> 2 ^ (bit_length n - 1) \<le> n \<and> n < 2 ^ bit_length n"
proof (induction n rule: bit_length.induct)
  case (1 n)
  show ?case
  proof (cases "n div 2 = 0")
    case True
    with "1.prems" have "n = 1" by presburger
    then show ?thesis by (simp add: bit_length.simps)
  next
    case False
    then have pos: "0 < n div 2" by simp
    let ?k = "bit_length (n div 2)"
    from "1.IH" "1.prems" pos
    have ih: "2 ^ (?k - 1) \<le> n div 2" "n div 2 < 2 ^ ?k" by simp_all
    have k: "0 < ?k" using pos by (simp add: bit_length.simps [of "n div 2"])
    have bl: "bit_length n = Suc ?k" using "1.prems" by (simp add: bit_length.simps [of n])
    have "2 * 2 ^ (?k - 1) = (2::nat) ^ ?k" using k by (cases ?k) simp_all
    with ih(1) have lo: "2 ^ ?k \<le> n" by presburger
    from ih(2) have "n div 2 + 1 \<le> 2 ^ ?k" by simp
    then have hi: "n < 2 * 2 ^ ?k" by presburger
    from lo hi bl show ?thesis by simp
  qed
qed

lemma pow2_le_real: "2 ^ k \<le> (n::nat) \<Longrightarrow> (2::real) ^ k \<le> real n"
  by (metis of_nat_le_iff of_nat_numeral of_nat_power)

lemma real_less_pow2: "(n::nat) < 2 ^ k \<Longrightarrow> real n + 1 \<le> (2::real) ^ k"
proof -
  assume "n < 2 ^ k"
  then have "Suc n \<le> 2 ^ k" by simp
  then have "real (Suc n) \<le> real (2 ^ k)" by (simp only: of_nat_le_iff)
  then show ?thesis by simp
qed

lemma exponent2_bounds:
  assumes "0 < x"
  shows "2 powi exponent2 x \<le> x \<and> x < 2 powi (exponent2 x + 1)"
proof (cases "1 \<le> x")
  case True
  define n where "n = nat \<lfloor>x\<rfloor>"
  define k where "k = bit_length n"
  have n: "0 < n" using True by (simp add: n_def)
  have nx: "real n \<le> x" "x < real n + 1" using True unfolding n_def by linarith+
  have e: "exponent2 x = int k - 1" using True by (simp add: exponent2_def n_def k_def)
  from bit_length_bounds [OF n]
  have b: "2 ^ (k - 1) \<le> n" "n < 2 ^ k" by (simp_all add: k_def)
  have k: "0 < k" using n unfolding k_def by (simp add: bit_length.simps [of n])
  then have e1: "exponent2 x = int (k - 1)" and e2: "exponent2 x + 1 = int k"
    using e by simp_all
  from pow2_le_real [OF b(1)] nx(1) have lo: "2 powi exponent2 x \<le> x"
    unfolding e1 power_int_of_nat by linarith
  from real_less_pow2 [OF b(2)] nx(2) have hi: "x < 2 powi (exponent2 x + 1)"
    unfolding e2 power_int_of_nat by linarith
  from lo hi show ?thesis by simp
next
  case False
  then have x1: "x < 1" by simp
  define y where "y = 1 / x"
  have y1: "1 < y" using assms x1 by (simp add: y_def)
  have xy: "1 / y = x" by (simp add: y_def)
  define n where "n = nat (\<lceil>y\<rceil> - 1)"
  define k where "k = bit_length n"
  have c2: "2 \<le> \<lceil>y\<rceil>" using y1 by linarith
  then have n: "0 < n" by (simp add: n_def)
  have ny: "real n < y" "y \<le> real n + 1" using c2 unfolding n_def by linarith+
  have e: "exponent2 x = - int k" using False by (simp add: exponent2_def n_def k_def y_def)
  from bit_length_bounds [OF n]
  have b: "2 ^ (k - 1) \<le> n" "n < 2 ^ k" by (simp_all add: k_def)
  have k: "0 < k" using n unfolding k_def by (simp add: bit_length.simps [of n])
  then have e2: "exponent2 x + 1 = - int (k - 1)" using e by simp
  from pow2_le_real [OF b(1)] ny(1) have "(2::real) ^ (k - 1) < y" by linarith
  then have "1 / y < 1 / 2 ^ (k - 1)"
    using y1 by (simp add: frac_less2)
  then have "x < 1 / 2 ^ (k - 1)" unfolding xy .
  then have hi: "x < 2 powi (exponent2 x + 1)"
    unfolding e2 by (simp add: power_int_minus_divide)
  from real_less_pow2 [OF b(2)] ny(2) have "y \<le> (2::real) ^ k" by linarith
  then have "1 / 2 ^ k \<le> 1 / y"
    using y1 by (simp add: frac_le)
  then have "1 / 2 ^ k \<le> x" unfolding xy .
  then have lo: "2 powi exponent2 x \<le> x"
    unfolding e by (simp add: power_int_minus_divide)
  from lo hi show ?thesis by simp
qed

lemma round_ties_even_close: "\<bar>real_of_int (round_ties_even x) - x\<bar> \<le> 1 / 2"
  unfolding round_ties_even_def Let_def by (auto; linarith)

lemma round_ties_even_nonneg: "0 \<le> x \<Longrightarrow> 0 \<le> round_ties_even x"
  unfolding round_ties_even_def Let_def by (auto; linarith)


lemma exponent2_less:
  assumes "0 < x" and "x < 2 powi n"
  shows "exponent2 x < n"
proof (rule ccontr)
  assume "\<not> exponent2 x < n"
  then have "n \<le> exponent2 x" by simp
  then have "(2::real) powi n \<le> 2 powi exponent2 x" by (intro power_int_increasing) simp_all
  with exponent2_bounds [OF assms(1)] assms(2) show False by linarith
qed

lemma exponent2_ge:
  assumes "0 < x" and "2 powi n \<le> x"
  shows "n \<le> exponent2 x"
proof (rule ccontr)
  assume "\<not> n \<le> exponent2 x"
  then have "exponent2 x + 1 \<le> n" by simp
  then have "(2::real) powi (exponent2 x + 1) \<le> 2 powi n"
    by (intro power_int_increasing) simp_all
  with exponent2_bounds [OF assms(1)] assms(2) show False by linarith
qed

lemma binary64_pos_error:
  assumes "0 < x" and "x < 2 powi 1023"
  shows "\<exists>y. binary64_pos x = Fin y \<and> 0 \<le> y \<and>
             \<bar>y - x\<bar> \<le> 2 powi (max (exponent2 x) (- 1022) - 53)"
proof -
  define e where "e = max (exponent2 x) (- 1022)"
  define q :: real where "q = 2 powi (e - 52)"
  define m where "m = round_ties_even (x / q)"
  define y where "y = real_of_int m * q"
  have q: "0 < q" by (simp add: q_def zero_less_power_int)
  have half: "q / 2 = 2 powi (e - 53)"
    using power_int_minus_mult [of "2::real" "e - 52"] by (simp add: q_def)
  have "\<bar>real_of_int m - x / q\<bar> \<le> 1 / 2"
    unfolding m_def by (rule round_ties_even_close)
  then have "\<bar>real_of_int m - x / q\<bar> * q \<le> 1 / 2 * q"
    using q by (intro mult_right_mono) simp_all
  moreover have "\<bar>real_of_int m - x / q\<bar> * q = \<bar>y - x\<bar>"
  proof -
    have "\<bar>real_of_int m - x / q\<bar> * q = \<bar>(real_of_int m - x / q) * q\<bar>"
      using q by (simp add: abs_mult)
    also have "(real_of_int m - x / q) * q = y - x"
      using q by (simp add: y_def left_diff_distrib)
    finally show ?thesis .
  qed
  ultimately have err: "\<bar>y - x\<bar> \<le> 2 powi (e - 53)"
    using half by simp
  have "0 \<le> x / q" using assms(1) q by simp
  then have "0 \<le> m" unfolding m_def by (rule round_ties_even_nonneg)
  then have y0: "0 \<le> y" using q by (simp add: y_def)
  have "exponent2 x < 1023" using assms by (rule exponent2_less)
  then have "e - 53 \<le> 1023" by (simp add: e_def)
  then have "(2::real) powi (e - 53) \<le> 2 powi 1023"
    by (intro power_int_increasing) simp_all
  with err assms(2) have "y < 2 powi 1023 + 2 powi 1023" by linarith
  also have "\<dots> = 2 powi 1024"
    using power_int_add_1 [of "2::real" 1023] by simp
  finally have "\<not> 2 ^ 1024 \<le> y" by simp
  then have "binary64_pos x = Fin y"
    by (simp add: binary64_pos_def Let_def e_def q_def m_def y_def)
  with y0 err show ?thesis unfolding e_def by blast
qed

lemma binary64_abs_error:
  assumes "0 < x" and "x \<le> 2 ^ 32"
  shows "\<exists>y. binary64 (Fin x) = Fin y \<and> 0 \<le> y \<and> \<bar>y - x\<bar> \<le> 1 / 2 ^ 21"
proof -
  have lt: "x < 2 powi 33" using assms(2) by simp
  then have "x < 2 powi 1023"
    using power_int_increasing [of 33 1023 "2::real"] by simp
  from binary64_pos_error [OF assms(1) this] obtain y where
    y: "binary64_pos x = Fin y" "0 \<le> y"
      "\<bar>y - x\<bar> \<le> 2 powi (max (exponent2 x) (- 1022) - 53)" by blast
  have "exponent2 x < 33" using assms(1) lt by (rule exponent2_less)
  then have "max (exponent2 x) (- 1022) - 53 \<le> - 21" by simp
  then have "(2::real) powi (max (exponent2 x) (- 1022) - 53) \<le> 2 powi (- 21)"
    by (intro power_int_increasing) simp_all
  also have "\<dots> = 1 / 2 ^ 21" by (simp add: power_int_minus_divide)
  finally have "\<bar>y - x\<bar> \<le> 1 / 2 ^ 21" using y(3) by linarith
  with y assms(1) show ?thesis by (auto simp: binary64.simps)
qed

lemma binary64_rel_error:
  assumes "1 / 2 ^ 31 \<le> x" and "x \<le> 2 ^ 32"
  shows "\<exists>y. binary64 (Fin x) = Fin y \<and> \<bar>y - x\<bar> \<le> x / 2 ^ 53"
proof -
  have pos: "0 < x" using assms(1) by (smt (verit) divide_pos_pos zero_less_power)
  have lt: "x < 2 powi 33" using assms(2) by simp
  then have "x < 2 powi 1023"
    using power_int_increasing [of 33 1023 "2::real"] by simp
  from binary64_pos_error [OF pos this] obtain y where
    y: "binary64_pos x = Fin y"
      "\<bar>y - x\<bar> \<le> 2 powi (max (exponent2 x) (- 1022) - 53)" by blast
  have "2 powi (- 31) \<le> x" using assms(1) by (simp add: power_int_minus_divide)
  with pos have "- 31 \<le> exponent2 x" by (rule exponent2_ge)
  then have m: "max (exponent2 x) (- 1022) = exponent2 x" by simp
  have "(2::real) powi (exponent2 x - 53) = 2 powi exponent2 x / 2 ^ 53"
    by (simp add: power_int_diff)
  also have "\<dots> \<le> x / 2 ^ 53"
    using exponent2_bounds [OF pos] by (simp add: divide_right_mono)
  finally have "\<bar>y - x\<bar> \<le> x / 2 ^ 53" using y(2) unfolding m by linarith
  with y(1) pos show ?thesis by (auto simp: binary64.simps)
qed

section \<open>Properties of the design-size resolver\<close>

lemma js_gt_0_cases: "js_gt n (Fin 0) \<longleftrightarrow> (\<exists>a. n = Fin a \<and> 0 < a) \<or> n = PosInf"
  by (cases n) auto

lemma js_gt_0_truthy: "js_gt n (Fin 0) \<Longrightarrow> truthy_number n \<and> \<not> isNaN n"
  by (cases n) auto

lemma pair_cond:
  "(truthy_opt a \<and> truthy_opt b \<and> \<not> isNaN (ToNumber_opt a) \<and> \<not> isNaN (ToNumber_opt b) \<and>
    js_gt (ToNumber_opt a) (Fin 0) \<and> js_gt (ToNumber_opt b) (Fin 0))
   \<longleftrightarrow> (\<exists>w h. a = Some w \<and> b = Some h \<and> js_gt w (Fin 0) \<and> js_gt h (Fin 0))"
  by (cases a; cases b) (auto dest: js_gt_0_truthy)

lemma pair_cond':
  "(truthy_opt a \<and> truthy_opt b \<and>
    js_gt (ToNumber_opt a) (Fin 0) \<and> js_gt (ToNumber_opt b) (Fin 0))
   \<longleftrightarrow> (\<exists>w h. a = Some w \<and> b = Some h \<and> js_gt w (Fin 0) \<and> js_gt h (Fin 0))"
  by (cases a; cases b) (auto dest: js_gt_0_truthy)

lemma explicit_cond:
  "(truthy_opt (designWidth opts) \<and> truthy_opt (designHeight opts) \<and>
    \<not> isNaN (ToNumber_opt (designWidth opts)) \<and> \<not> isNaN (ToNumber_opt (designHeight opts)) \<and>
    js_gt (ToNumber_opt (designWidth opts)) (Fin 0) \<and>
    js_gt (ToNumber_opt (designHeight opts)) (Fin 0))
   \<longleftrightarrow> source_valid (explicit_candidate opts)"
  unfolding pair_cond
  by (auto simp: source_valid_def explicit_candidate_def valid_size_def split: option.splits)

lemma explicit_value:
  "source_valid (explicit_candidate opts) \<Longrightarrow>
   the (explicit_candidate opts) =
     \<lparr>width = ToNumber_opt (designWidth opts), height = ToNumber_opt (designHeight opts)\<rparr>"
  by (auto simp: source_valid_def explicit_candidate_def split: option.splits)

lemma detected_cond:
  "(truthy_opt (detectedWidth opts) \<and> truthy_opt (detectedHeight opts) \<and>
    js_gt (ToNumber_opt (detectedWidth opts)) (Fin 0) \<and>
    js_gt (ToNumber_opt (detectedHeight opts)) (Fin 0))
   \<longleftrightarrow> source_valid (detected_candidate opts)"
  unfolding pair_cond'
  by (auto simp: source_valid_def detected_candidate_def valid_size_def split: option.splits)

lemma detected_value:
  "source_valid (detected_candidate opts) \<Longrightarrow>
   the (detected_candidate opts) =
     \<lparr>width = ToNumber_opt (detectedWidth opts), height = ToNumber_opt (detectedHeight opts)\<rparr>"
  by (auto simp: source_valid_def detected_candidate_def split: option.splits)

lemma ratio_cond:
  "(truthy (aspectRatio opts) \<and> typeof (aspectRatio opts) = ''number'' \<and>
    (case aspectRatio opts of JNum r \<Rightarrow> js_gt r (Fin 0) | _ \<Rightarrow> False))
   \<longleftrightarrow> configured_ratio opts \<noteq> None"
  by (cases "aspectRatio opts") (auto simp: configured_ratio_def dest: js_gt_0_truthy)

lemma ratio_value:
  "configured_ratio opts = Some r \<Longrightarrow> (case aspectRatio opts of JNum r \<Rightarrow> r | _ \<Rightarrow> NaN) = r"
  by (cases "aspectRatio opts") (auto simp: configured_ratio_def split: if_splits)

lemma configured_ratio_Some:
  "configured_ratio opts = Some r \<longleftrightarrow> aspectRatio opts = JNum r \<and> js_gt r (Fin 0)"
  by (auto simp: configured_ratio_def split: jsval.splits)

lemma configured_ratio_None:
  "configured_ratio opts = None \<longleftrightarrow> \<not> (\<exists>r. aspectRatio opts = JNum r \<and> js_gt r (Fin 0))"
  by (auto simp: configured_ratio_def split: jsval.splits)

lemma measured_cond:
  "(autoDetect opts \<and> cnt \<noteq> None \<and>
    js_gt (width (detectElementSize cnt)) (Fin 0) \<and>
    js_gt (height (detectElementSize cnt)) (Fin 0))
   \<longleftrightarrow> source_valid (measured_candidate opts cnt)"
  by (auto simp: source_valid_def measured_candidate_def valid_size_def)

lemma first_valid_Cons:
  "first_valid (c # cs) d = (if source_valid c then the c else first_valid cs d)"
  by (cases c) (simp_all add: source_valid_def)

lemma determineDesignSize_chain:
  "determineDesignSize win opts ctr cnt =
     (if source_valid (explicit_candidate opts) then the (explicit_candidate opts)
      else case configured_ratio opts of
             Some r \<Rightarrow> ratio_size r (ratio_viewport win ctr)
           | None \<Rightarrow>
               (if source_valid (detected_candidate opts) then the (detected_candidate opts)
                else if source_valid (measured_candidate opts cnt)
                     then detectElementSize cnt
                else if source_valid (map_option element_size ctr)
                     then the (map_option element_size ctr)
                else DEFAULT_DESIGN))"
proof -
  have last: "(case ctr of
           Some c \<Rightarrow>
             if js_gt (Fin (real (offsetWidth c))) (Fin 0) \<and>
                js_gt (Fin (real (offsetHeight c))) (Fin 0)
             then \<lparr>width = Fin (real (offsetWidth c)), height = Fin (real (offsetHeight c))\<rparr>
             else \<lparr>width = DEFAULT_DESIGN_WIDTH, height = DEFAULT_DESIGN_HEIGHT\<rparr>
         | None \<Rightarrow> \<lparr>width = DEFAULT_DESIGN_WIDTH, height = DEFAULT_DESIGN_HEIGHT\<rparr>)
     = (if source_valid (map_option element_size ctr)
        then the (map_option element_size ctr) else DEFAULT_DESIGN)"
    by (cases ctr)
       (simp_all add: source_valid_def valid_size_def element_size_def DEFAULT_DESIGN_def)
  have ratio: "configured_ratio opts = Some r \<Longrightarrow>
     (let r = binary64 (case aspectRatio opts of JNum r \<Rightarrow> r | _ \<Rightarrow> NaN);
             containerSize =
               (case ctr of
                  Some c \<Rightarrow> \<lparr>width = Fin (real (offsetWidth c)),
                              height = Fin (real (offsetHeight c))\<rparr>
                | None \<Rightarrow> detectScreenSize win)
         in if js_gt (binary64 (js_div (width containerSize) (height containerSize))) r
            then \<lparr>width = Math_round (binary64 (js_mul (height containerSize) r)),
                  height = height containerSize\<rparr>
            else \<lparr>width = width containerSize,
                  height = Math_round (binary64 (js_div (width containerSize) r))\<rparr>)
     = ratio_size r (ratio_viewport win ctr)" for r
    by (cases ctr)
       (simp_all add: ratio_value ratio_size_def ratio_viewport_def element_size_def Let_def)
  show ?thesis
  proof (cases "configured_ratio opts")
    case None
    show ?thesis
      unfolding determineDesignSize_def explicit_cond ratio_cond detected_cond measured_cond last
      by (simp add: None explicit_value detected_value)
  next
    case (Some r)
    show ?thesis
      unfolding determineDesignSize_def explicit_cond ratio_cond detected_cond measured_cond last
        ratio [OF Some]
      by (simp add: Some explicit_value)
  qed
qed


lemma valid_DEFAULT_DESIGN: "valid_size DEFAULT_DESIGN"
  by (simp add: valid_size_def DEFAULT_DESIGN_def DEFAULT_DESIGN_WIDTH_def DEFAULT_DESIGN_HEIGHT_def)

lemma source_valid_the: "source_valid c \<Longrightarrow> valid_size (the c)"
  by (cases c) (simp_all add: source_valid_def)

lemma first_valid_valid: "valid_size d \<Longrightarrow> valid_size (first_valid cs d)"
  by (induction cs d rule: first_valid.induct) simp_all

text \<open>
  Where the code follows the rule of the specification. Whenever the aspect-ratio
  source is absent, valid, or preceded by a valid explicit size, \<open>determineDesignSize\<close>
  returns what the first-valid-source rule gives; without a ratio source the result is
  a valid size, and it is the default 1920 by 1080 when no source is valid.
\<close>

lemma determineDesignSize_follows_rule:
  "(source_valid (explicit_candidate opts) \<or> configured_ratio opts = None \<or>
       source_valid (ratio_candidate win opts ctr) \<longrightarrow>
       determineDesignSize win opts ctr cnt =
       resolveDesignSize_spec win opts ctr cnt)
   \<and> (source_valid (explicit_candidate opts) \<or> configured_ratio opts = None \<longrightarrow>
       valid_size (determineDesignSize win opts ctr cnt))
   \<and> (\<not> source_valid (explicit_candidate opts) \<and> configured_ratio opts = None \<and>
       \<not> source_valid (detected_candidate opts) \<and>
       \<not> source_valid (measured_candidate opts cnt) \<and>
       \<not> source_valid (map_option element_size ctr) \<longrightarrow>
       determineDesignSize win opts ctr cnt = DEFAULT_DESIGN)"
proof -
  let ?d = "determineDesignSize win opts ctr cnt"
  let ?tail = "first_valid
              [detected_candidate opts, measured_candidate opts cnt,
               map_option element_size ctr]
              DEFAULT_DESIGN"
  have m: "source_valid (measured_candidate opts cnt) \<Longrightarrow>
           the (measured_candidate opts cnt) = detectElementSize cnt"
    by (simp add: measured_candidate_def source_valid_def split: if_splits)
  have tail: "?tail =
               (if source_valid (detected_candidate opts) then the (detected_candidate opts)
                else if source_valid (measured_candidate opts cnt)
                     then detectElementSize cnt
                else if source_valid (map_option element_size ctr)
                     then the (map_option element_size ctr)
                else DEFAULT_DESIGN)"
    by (simp add: first_valid_Cons m)
  have p1: "?d = first_valid [explicit_candidate opts]
       (case configured_ratio opts of
          Some r \<Rightarrow> ratio_size r (ratio_viewport win ctr)
        | None \<Rightarrow> ?tail)"
    unfolding tail by (simp add: determineDesignSize_chain first_valid_Cons)
  have p2: "source_valid (explicit_candidate opts) \<or> configured_ratio opts = None \<or>
       source_valid (ratio_candidate win opts ctr) \<longrightarrow>
       ?d = resolveDesignSize_spec win opts ctr cnt"
    unfolding p1 resolveDesignSize_spec_def
    by (cases "configured_ratio opts")
       (auto simp: first_valid_Cons ratio_candidate_def source_valid_def)
  have p3: "source_valid (explicit_candidate opts) \<or> configured_ratio opts = None \<longrightarrow>
       valid_size ?d"
    unfolding p1
    by (auto simp: first_valid_Cons source_valid_the first_valid_valid valid_DEFAULT_DESIGN
        simp del: first_valid.simps)
  have p4: "\<not> source_valid (explicit_candidate opts) \<and> configured_ratio opts = None \<and>
       \<not> source_valid (detected_candidate opts) \<and>
       \<not> source_valid (measured_candidate opts cnt) \<and>
       \<not> source_valid (map_option element_size ctr) \<longrightarrow>
       ?d = DEFAULT_DESIGN"
    unfolding p1 by (simp add: first_valid_Cons)
  from p2 p3 p4 show ?thesis by blast
qed

section \<open>Properties of the aspect-ratio source\<close>

lemma binary64_16_9: "binary64 (Fin (16 / 9)) = Fin double_16_9"
  by (simp add: binary64_eval double_16_9_def)

lemma binary64_13_6: "binary64 (Fin (13 / 6)) = Fin double_13_6"
  by (simp add: binary64_eval double_13_6_def)

lemma binary64_double_256_135: "binary64 (Fin double_256_135) = Fin double_256_135"
  by (simp add: binary64_eval double_256_135_def)

text \<open>
  The rounding follows the code to the last bit. With the ratio 256/135 as a binary64
  number, the quotient 1920 / ratio is 1012.5 in binary64 (and below it in the reals),
  so a container of 1920 by 1080 resolves to 1920 by 1013; with the ratio parsed from
  \<open>13:6\<close>, the product with 405 falls below 877.5, so a container of 1920 by 405
  resolves to 877 by 405.
\<close>

lemma determineDesignSize_binary64_ties:
  "determineDesignSize \<lparr>innerWidth = 1024, innerHeight = 768\<rparr>
     (no_options\<lparr>aspectRatio := JNum (Fin double_256_135)\<rparr>)
     (Some (plain_element 1920 1080)) None
     = \<lparr>width = Fin 1920, height = Fin 1013\<rparr>"
  "determineDesignSize \<lparr>innerWidth = 1024, innerHeight = 768\<rparr>
     (no_options\<lparr>aspectRatio := JNum (Fin (13 / 6))\<rparr>)
     (Some (plain_element 1920 405)) None
     = \<lparr>width = Fin 877, height = Fin 405\<rparr>"
  by (simp_all add: determineDesignSize_def no_options_def plain_element_def
      binary64_double_256_135 binary64_13_6, simp_all add: double_256_135_def double_13_6_def binary64_eval)


lemma round_half_close: "\<bar>real_of_int \<lfloor>x + 1 / 2\<rfloor> - x\<bar> \<le> 1 / 2" for x :: real
  by linarith

lemma round_half_le:
  assumes "x < real n + 1 / 2"
  shows "\<lfloor>x + 1 / 2\<rfloor> \<le> int n"
proof -
  have "x + 1 / 2 < real_of_int (int n + 1)" using assms by simp
  then have "\<lfloor>x + 1 / 2\<rfloor> < int n + 1" by (simp only: floor_less_iff)
  then show ?thesis by simp
qed

lemma round_half_nonneg: "0 \<le> x \<Longrightarrow> 0 \<le> \<lfloor>x + 1 / 2\<rfloor>" for x :: real
  by (simp add: zero_le_floor)

lemma ratio_size_Fin:
  assumes "binary64 (Fin r) = Fin r" and "0 < r" and "0 < vh"
  shows "ratio_size (Fin r) \<lparr>width = Fin (real vw), height = Fin (real vh)\<rparr> =
         (if js_gt (binary64 (Fin (real vw / real vh))) (Fin r)
          then \<lparr>width = Math_round (binary64 (Fin (real vh * r))), height = Fin (real vh)\<rparr>
          else \<lparr>width = Fin (real vw), height = Math_round (binary64 (Fin (real vw / r)))\<rparr>)"
  using assms by (simp add: ratio_size_def)

lemma size_bounds:
  assumes "0 < n" and "n < 2 ^ 31"
  shows "1 \<le> real n \<and> real n \<le> 2 ^ 31"
proof -
  from assms(2) have "real n < real (2 ^ 31)" by (simp only: of_nat_less_iff)
  then have "real n \<le> 2 ^ 31" by simp
  moreover from assms(1) have "1 \<le> real n" by simp
  ultimately show ?thesis by simp
qed

text \<open>The quotient of two positive sizes below \<open>2 ^ 31\<close>, rounded to binary64.\<close>

lemma binary64_size_quotient:
  assumes "0 < vw" "vw < 2 ^ 31" "0 < vh" "vh < 2 ^ 31"
  shows "\<exists>c. binary64 (Fin (real vw / real vh)) = Fin c \<and>
             \<bar>c - real vw / real vh\<bar> \<le> real vw / real vh / 2 ^ 53"
proof -
  have w: "1 \<le> real vw" "real vw \<le> 2 ^ 31" and h: "1 \<le> real vh" "real vh \<le> 2 ^ 31"
    using assms size_bounds by blast+
  have "1 / 2 ^ 31 \<le> 1 / real vh" using h by (simp add: frac_le)
  also have "\<dots> \<le> real vw / real vh" using w h by (simp add: divide_right_mono)
  finally have lo: "1 / 2 ^ 31 \<le> real vw / real vh" .
  have "real vw / real vh \<le> real vw / 1" using w h by (intro divide_left_mono) simp_all
  with w have hi: "real vw / real vh \<le> 2 ^ 32" by simp
  from binary64_rel_error [OF lo hi] show ?thesis .
qed

lemma ratio_height_limited:
  assumes vw: "0 < vw" "vw < 2 ^ 31" and vh: "0 < vh" "vh < 2 ^ 31" and r: "0 < r"
    and c: "binary64 (Fin (real vw / real vh)) = Fin c" and cr: "r < c"
    and ce: "\<bar>c - real vw / real vh\<bar> \<le> real vw / real vh / 2 ^ 53"
  shows "\<exists>w. Math_round (binary64 (Fin (real vh * r))) = Fin (of_int w) \<and>
             0 \<le> w \<and> w \<le> int vw \<and> \<bar>real_of_int w - real vh * r\<bar> \<le> 1 / 2 + 1 / 2 ^ 20"
proof -
  have w: "1 \<le> real vw" "real vw \<le> 2 ^ 31" and h: "1 \<le> real vh" "real vh \<le> 2 ^ 31"
    using vw vh size_bounds by blast+
  define p where "p = real vh * r"
  have p0: "0 < p" using h r by (simp add: p_def)
  have "c \<le> real vw / real vh + real vw / real vh / 2 ^ 53" using ce by linarith
  then have "real vh * c \<le> real vh * (real vw / real vh + real vw / real vh / 2 ^ 53)"
    using h by (intro mult_left_mono) simp_all
  also have "\<dots> = real vw + real vw / 2 ^ 53" using h by (simp add: field_simps)
  finally have "real vh * c \<le> real vw + real vw / 2 ^ 53" .
  moreover have "p < real vh * c" unfolding p_def using cr h by (intro mult_strict_left_mono) simp_all
  moreover have "real vw / 2 ^ 53 \<le> 1 / 2 ^ 22" using w by simp
  ultimately have pv: "p < real vw + 1 / 2 ^ 22" by linarith
  with w have "p \<le> 2 ^ 32" by simp
  from binary64_abs_error [OF p0 this] obtain y where
    y: "binary64 (Fin p) = Fin y" "0 \<le> y" "\<bar>y - p\<bar> \<le> 1 / 2 ^ 21" by blast
  let ?w = "\<lfloor>y + 1 / 2\<rfloor>"
  have m: "Math_round (binary64 (Fin p)) = Fin (of_int ?w)"
    by (simp only: y(1) Math_round.simps)
  have "y \<le> p + 1 / 2 ^ 21" using y(3) by linarith
  moreover have "(1::real) / 2 ^ 22 + 1 / 2 ^ 21 < 1 / 2" by simp
  ultimately have "y < real vw + 1 / 2" using pv by linarith
  then have le: "?w \<le> int vw" by (rule round_half_le)
  have ge: "0 \<le> ?w" using y(2) by (rule round_half_nonneg)
  have "\<bar>real_of_int ?w - p\<bar> \<le> \<bar>real_of_int ?w - y\<bar> + \<bar>y - p\<bar>" by simp
  moreover have "(1::real) / 2 ^ 21 \<le> 1 / 2 ^ 20" by simp
  ultimately have "\<bar>real_of_int ?w - p\<bar> \<le> 1 / 2 + 1 / 2 ^ 20"
    using round_half_close [of y] y(3) by linarith
  with m le ge show ?thesis unfolding p_def by blast
qed

lemma ratio_width_limited:
  assumes vw: "0 < vw" "vw < 2 ^ 31" and vh: "0 < vh" "vh < 2 ^ 31" and r: "0 < r"
    and c: "binary64 (Fin (real vw / real vh)) = Fin c" and cr: "c \<le> r"
    and ce: "\<bar>c - real vw / real vh\<bar> \<le> real vw / real vh / 2 ^ 53"
  shows "\<exists>h. Math_round (binary64 (Fin (real vw / r))) = Fin (of_int h) \<and>
             0 \<le> h \<and> h \<le> int vh \<and> \<bar>real_of_int h - real vw / r\<bar> \<le> 1 / 2 + 1 / 2 ^ 20"
proof -
  have w: "1 \<le> real vw" "real vw \<le> 2 ^ 31" and h: "1 \<le> real vh" "real vh \<le> 2 ^ 31"
    using vw vh size_bounds by blast+
  define q where "q = real vw / r"
  have q0: "0 < q" using w r by (simp add: q_def)
  have "real vw / real vh - real vw / real vh / 2 ^ 53 \<le> c" using ce by linarith
  with cr have "real vw / real vh - real vw / real vh / 2 ^ 53 \<le> r" by linarith
  then have "real vh * (real vw / real vh - real vw / real vh / 2 ^ 53) \<le> real vh * r"
    using h by (intro mult_left_mono) simp_all
  moreover have "real vh * (real vw / real vh - real vw / real vh / 2 ^ 53)
                 = real vw - real vw / 2 ^ 53"
    using h by (simp add: field_simps)
  ultimately have a: "real vw - real vw / 2 ^ 53 \<le> real vh * r" by simp
  have b: "real vw / 2 ^ 53 \<le> 1 / 2 ^ 22" using w by simp
  have rq: "r * q = real vw" using r by (simp add: q_def)
  have "real vh * r \<ge> real vw * (1 - 1 / 2 ^ 53)" using a by (simp add: algebra_simps)
  then have "real vh * r \<ge> r * q * (1 - 1 / 2 ^ 53)" by (simp only: rq)
  then have "real vh \<ge> q * (1 - 1 / 2 ^ 53)" using r by (simp add: algebra_simps)
  then have "q \<le> real vh / (1 - 1 / 2 ^ 53)" by (simp add: pos_le_divide_eq)
  also have "\<dots> \<le> real vh + 1 / 2 ^ 21"
  proof -
    have "real vh \<le> (real vh + 1 / 2 ^ 21) * (1 - 1 / 2 ^ 53)"
      using h by (simp add: algebra_simps)
    then show ?thesis by (simp add: pos_divide_le_eq)
  qed
  finally have qv: "q \<le> real vh + 1 / 2 ^ 21" .
  with h have "q \<le> 2 ^ 32" by simp
  from binary64_abs_error [OF q0 this] obtain y where
    y: "binary64 (Fin q) = Fin y" "0 \<le> y" "\<bar>y - q\<bar> \<le> 1 / 2 ^ 21" by blast
  let ?h = "\<lfloor>y + 1 / 2\<rfloor>"
  have m: "Math_round (binary64 (Fin q)) = Fin (of_int ?h)"
    by (simp only: y(1) Math_round.simps)
  have "y \<le> q + 1 / 2 ^ 21" using y(3) by linarith
  moreover have "(1::real) / 2 ^ 21 + 1 / 2 ^ 21 < 1 / 2" by simp
  ultimately have "y < real vh + 1 / 2" using qv by linarith
  then have le: "?h \<le> int vh" by (rule round_half_le)
  have ge: "0 \<le> ?h" using y(2) by (rule round_half_nonneg)
  have "\<bar>real_of_int ?h - q\<bar> \<le> \<bar>real_of_int ?h - y\<bar> + \<bar>y - q\<bar>" by simp
  moreover have "(1::real) / 2 ^ 21 \<le> 1 / 2 ^ 20" by simp
  ultimately have "\<bar>real_of_int ?h - q\<bar> \<le> 1 / 2 + 1 / 2 ^ 20"
    using round_half_close [of y] y(3) by linarith
  with m le ge show ?thesis unfolding q_def by blast
qed


text \<open>
  Claim C4, as amended. For a positive viewport (sizes are 32-bit integers) and a
  positive target ratio (a binary64 number), the size computed by the aspect-ratio
  source never exceeds the viewport on either axis. On the limiting axis it equals the
  viewport; on the other axis it is \<open>Math.round\<close> of the binary64 product or quotient,
  an integer within \<open>1/2 + 1/2^20\<close> of the value the ratio gives, so the ratio is
  matched up to that rounding and not exactly. For the window 1024 by 768 and the ratio
  \<open>16:9\<close> the size is 1024 by 576, whose ratio is within 0.1 of 16/9, with the width
  above the height.
\<close>

theorem ratio_source_fits_viewport:
  "(\<not> source_valid (explicit_candidate opts) \<and> aspectRatio opts = JNum (Fin r) \<and> 0 < r \<and>
    binary64 (Fin r) = Fin r \<and>
    ratio_viewport win ctr = \<lparr>width = Fin (real vw), height = Fin (real vh)\<rparr> \<and>
    0 < vw \<and> vw < 2 ^ 31 \<and> 0 < vh \<and> vh < 2 ^ 31 \<longrightarrow>
    (\<exists>w h. determineDesignSize win opts ctr cnt =
             \<lparr>width = Fin (of_int w), height = Fin (of_int h)\<rparr>
       \<and> 0 \<le> w \<and> w \<le> int vw \<and> 0 \<le> h \<and> h \<le> int vh
       \<and> (if js_gt (binary64 (Fin (real vw / real vh))) (Fin r)
          then h = int vh \<and>
               Fin (of_int w) = Math_round (binary64 (Fin (real vh * r))) \<and>
               \<bar>real_of_int w - real vh * r\<bar> \<le> 1 / 2 + 1 / 2 ^ 20
          else w = int vw \<and>
               Fin (of_int h) = Math_round (binary64 (Fin (real vw / r))) \<and>
               \<bar>real_of_int h - real vw / r\<bar> \<le> 1 / 2 + 1 / 2 ^ 20)))
   \<and> determineDesignSize \<lparr>innerWidth = 1024, innerHeight = 768\<rparr>
        (normalizeOptions (no_options\<lparr>aspectRatio := JStr ''16:9''\<rparr>)) None None
      = \<lparr>width = Fin 1024, height = Fin 576\<rparr>
   \<and> \<bar>(1024 :: real) / 576 - 16 / 9\<bar> < 1 / 10 \<and> (576 :: real) < 1024"
proof -
  have general: "\<exists>w h. determineDesignSize win opts ctr cnt =
             \<lparr>width = Fin (of_int w), height = Fin (of_int h)\<rparr>
       \<and> 0 \<le> w \<and> w \<le> int vw \<and> 0 \<le> h \<and> h \<le> int vh
       \<and> (if js_gt (binary64 (Fin (real vw / real vh))) (Fin r)
          then h = int vh \<and>
               Fin (of_int w) = Math_round (binary64 (Fin (real vh * r))) \<and>
               \<bar>real_of_int w - real vh * r\<bar> \<le> 1 / 2 + 1 / 2 ^ 20
          else w = int vw \<and>
               Fin (of_int h) = Math_round (binary64 (Fin (real vw / r))) \<and>
               \<bar>real_of_int h - real vw / r\<bar> \<le> 1 / 2 + 1 / 2 ^ 20)"
    if ne: "\<not> source_valid (explicit_candidate opts)"
      and ar: "aspectRatio opts = JNum (Fin r)" and r: "0 < r"
      and rb: "binary64 (Fin r) = Fin r"
      and vp: "ratio_viewport win ctr = \<lparr>width = Fin (real vw), height = Fin (real vh)\<rparr>"
      and vw: "0 < vw" "vw < 2 ^ 31" and vh: "0 < vh" "vh < 2 ^ 31"
  proof -
    have cr: "configured_ratio opts = Some (Fin r)"
      using ar r by (simp add: configured_ratio_def)
    have d: "determineDesignSize win opts ctr cnt =
             ratio_size (Fin r) \<lparr>width = Fin (real vw), height = Fin (real vh)\<rparr>"
      using ne cr vp by (simp add: determineDesignSize_chain)
    from binary64_size_quotient [OF vw vh] obtain c where
      c: "binary64 (Fin (real vw / real vh)) = Fin c"
        "\<bar>c - real vw / real vh\<bar> \<le> real vw / real vh / 2 ^ 53" by blast
    show ?thesis
    proof (cases "r < c")
      case True
      from ratio_height_limited [OF vw vh r c(1) True c(2)] obtain w where
        w: "Math_round (binary64 (Fin (real vh * r))) = Fin (of_int w)" "0 \<le> w" "w \<le> int vw"
          "\<bar>real_of_int w - real vh * r\<bar> \<le> 1 / 2 + 1 / 2 ^ 20" by blast
      have gt: "js_gt (binary64 (Fin (real vw / real vh))) (Fin r)"
        using True by (simp only: c(1) js_gt.simps)
      have "determineDesignSize win opts ctr cnt =
            \<lparr>width = Fin (of_int w), height = Fin (of_int (int vh))\<rparr>"
        unfolding d ratio_size_Fin [OF rb r vh(1)] using gt w(1) by simp
      moreover have "0 \<le> int vh" "int vh \<le> int vh" by simp_all
      ultimately show ?thesis using gt w by (intro exI [of _ w] exI [of _ "int vh"]) simp
    next
      case False
      then have le: "c \<le> r" by simp
      from ratio_width_limited [OF vw vh r c(1) le c(2)] obtain h where
        h: "Math_round (binary64 (Fin (real vw / r))) = Fin (of_int h)" "0 \<le> h" "h \<le> int vh"
          "\<bar>real_of_int h - real vw / r\<bar> \<le> 1 / 2 + 1 / 2 ^ 20" by blast
      have ngt: "\<not> js_gt (binary64 (Fin (real vw / real vh))) (Fin r)"
        using False by (simp only: c(1) js_gt.simps) simp
      have "determineDesignSize win opts ctr cnt =
            \<lparr>width = Fin (of_int (int vw)), height = Fin (of_int h)\<rparr>"
        unfolding d ratio_size_Fin [OF rb r vh(1)] using ngt h(1) by simp
      then show ?thesis using ngt h by (intro exI [of _ "int vw"] exI [of _ h]) simp
    qed
  qed
  have norm: "normalizeOptions (no_options\<lparr>aspectRatio := JStr ''16:9''\<rparr>) =
              no_options\<lparr>aspectRatio := JNum (Fin (16 / 9))\<rparr>"
    using parseAspectRatio_two [of "''16''" "''9''"]
    by (simp add: normalizeOptions_def parseFloat_16 parseFloat_9)
  have ex: "determineDesignSize \<lparr>innerWidth = 1024, innerHeight = 768\<rparr>
        (normalizeOptions (no_options\<lparr>aspectRatio := JStr ''16:9''\<rparr>)) None None
      = \<lparr>width = Fin 1024, height = Fin 576\<rparr>"
    unfolding norm
    by (simp add: determineDesignSize_def no_options_def detectScreenSize_def binary64_16_9,
        simp add: double_16_9_def binary64_eval)
  have ar: "\<bar>(1024 :: real) / 576 - 16 / 9\<bar> < 1 / 10 \<and> (576 :: real) < 1024"
    by simp
  from general ex ar show ?thesis by blast
qed

text \<open>
  The claim as stated fails: for the window 1366 by 768 and the ratio 16/9 the size is
  1365 by 768, whose ratio is not 16/9.
\<close>

theorem ratio_source_exact_counterexample:
  "determineDesignSize \<lparr>innerWidth = 1366, innerHeight = 768\<rparr>
     (no_options\<lparr>aspectRatio := JNum (Fin (16 / 9))\<rparr>) None None
     = \<lparr>width = Fin 1365, height = Fin 768\<rparr>
   \<and> (1365 :: real) / 768 \<noteq> 16 / 9"
  by (simp add: determineDesignSize_def no_options_def detectScreenSize_def binary64_16_9,
      simp add: double_16_9_def binary64_eval)

theorem ratio_source_fits_viewport_witness:
  "\<exists>w h. determineDesignSize \<lparr>innerWidth = 1366, innerHeight = 768\<rparr>
       (no_options\<lparr>aspectRatio := JNum (Fin (7 / 4))\<rparr>) None None
       = \<lparr>width = Fin (of_int w), height = Fin (of_int h)\<rparr>
     \<and> w \<le> 1366 \<and> h = 768 \<and> \<bar>real_of_int w - 768 * (7 / 4)\<bar> \<le> 1 / 2 + 1 / 2 ^ 20"
proof -
  let ?o = "no_options\<lparr>aspectRatio := JNum (Fin (7 / 4))\<rparr>"
  let ?win = "\<lparr>innerWidth = 1366, innerHeight = 768\<rparr>"
  have h: "\<not> source_valid (explicit_candidate ?o) \<and> aspectRatio ?o = JNum (Fin (7 / 4)) \<and>
    (0 :: real) < 7 / 4 \<and> binary64 (Fin (7 / 4)) = Fin (7 / 4) \<and>
    ratio_viewport ?win None = \<lparr>width = Fin (real 1366), height = Fin (real 768)\<rparr> \<and>
    (0 :: nat) < 1366 \<and> (1366 :: nat) < 2 ^ 31 \<and> (0 :: nat) < 768 \<and> (768 :: nat) < 2 ^ 31"
    by (simp add: no_options_def source_valid_def explicit_candidate_def ratio_viewport_def
        detectScreenSize_def binary64_eval)
  have g: "js_gt (binary64 (Fin (real 1366 / real 768))) (Fin (7 / 4))"
    by (simp add: binary64_eval)
  note t = ratio_source_fits_viewport [where opts = ?o and win = ?win and ctr = None
      and cnt = None and r = "7 / 4" and vw = 1366 and vh = 768, THEN conjunct1]
  from t h obtain w h where
    "determineDesignSize ?win ?o None None = \<lparr>width = Fin (of_int w), height = Fin (of_int h)\<rparr>"
    "w \<le> int 1366"
    "if js_gt (binary64 (Fin (real 1366 / real 768))) (Fin (7 / 4))
     then h = int 768 \<and> Fin (of_int w) = Math_round (binary64 (Fin (real 768 * (7 / 4)))) \<and>
          \<bar>real_of_int w - real 768 * (7 / 4)\<bar> \<le> 1 / 2 + 1 / 2 ^ 20
     else w = int 1366 \<and> Fin (of_int h) = Math_round (binary64 (Fin (real 1366 / (7 / 4)))) \<and>
          \<bar>real_of_int h - real 1366 / (7 / 4)\<bar> \<le> 1 / 2 + 1 / 2 ^ 20"
    by blast
  with g have
    "determineDesignSize ?win ?o None None = \<lparr>width = Fin (of_int w), height = Fin (of_int h)\<rparr>
     \<and> w \<le> 1366 \<and> h = 768 \<and> \<bar>real_of_int w - 768 * (7 / 4)\<bar> \<le> 1 / 2 + 1 / 2 ^ 20"
    by (simp only: if_True) simp
  then show ?thesis by blast
qed

section \<open>Properties of the scaler\<close>

lemma falsy_number: "\<not> truthy_number n \<longleftrightarrow> n = Fin 0 \<or> n = NaN"
  by (cases n) auto

text \<open>
  Claim C2, as amended. \<open>calculateCurrentScale\<close> returns the neutral scale 1, and
  leaves the state as it is, whenever no container is bound or the design width or
  height is zero or NaN. With a container bound and a non-zero design size it returns
  the quotient-derived scale, whatever the container's size, also when that size is
  zero. Both revisions of the function return the same scale.
\<close>

theorem calculateCurrentScale_neutral:
  "(container s = None \<or> width (designSize s) = Fin 0 \<or> width (designSize s) = NaN \<or>
    height (designSize s) = Fin 0 \<or> height (designSize s) = NaN \<longrightarrow>
    calculateCurrentScale s = (Fin 1, s) \<and> calculateCurrentScale_prev s = Fin 1)
   \<and> (container s = Some c \<and> designSize s = \<lparr>width = Fin dw, height = Fin dh\<rparr> \<and>
       dw \<noteq> 0 \<and> dh \<noteq> 0 \<longrightarrow>
       fst (calculateCurrentScale s) =
         Fin (if currentMode s = MODES_FULLSCREEN
              then max (real (offsetWidth c) / dw) (real (offsetHeight c) / dh)
              else min (real (offsetWidth c) / dw) (real (offsetHeight c) / dh)) \<and>
       calculateCurrentScale_prev s = fst (calculateCurrentScale s))"
proof -
  have a: "container s = None \<or> width (designSize s) = Fin 0 \<or> width (designSize s) = NaN \<or>
    height (designSize s) = Fin 0 \<or> height (designSize s) = NaN \<longrightarrow>
    calculateCurrentScale s = (Fin 1, s) \<and> calculateCurrentScale_prev s = Fin 1"
    by (auto simp: calculateCurrentScale_def calculateCurrentScale_prev_def
        split: option.splits)
  have b: "container s = Some c \<and> designSize s = \<lparr>width = Fin dw, height = Fin dh\<rparr> \<and>
       dw \<noteq> 0 \<and> dh \<noteq> 0 \<longrightarrow>
       fst (calculateCurrentScale s) =
         Fin (if currentMode s = MODES_FULLSCREEN
              then max (real (offsetWidth c) / dw) (real (offsetHeight c) / dh)
              else min (real (offsetWidth c) / dw) (real (offsetHeight c) / dh)) \<and>
       calculateCurrentScale_prev s = fst (calculateCurrentScale s)"
    by (simp add: calculateCurrentScale_def calculateCurrentScale_prev_def Let_def
        calculateScale_Fin)
  from a b show ?thesis by blast
qed

text \<open>
  The claim as stated fails: a bound container of width 0 gives the scale 0, not 1.
\<close>

theorem calculateCurrentScale_zero_viewport_counterexample:
  "offsetWidth (plain_element 0 600) = 0
   \<and> container example_scaler = Some (plain_element 0 600)
   \<and> fst (calculateCurrentScale example_scaler) = Fin 0
   \<and> calculateCurrentScale_prev example_scaler = Fin 0
   \<and> Fin 0 \<noteq> Fin 1"
  by (simp add: example_scaler_def Scaler_new_def no_options_def plain_element_def
      calculateCurrentScale_def calculateCurrentScale_prev_def Let_def calculateScale_Fin
      MODES_PROPORTIONAL_def MODES_FULLSCREEN_def)

theorem calculateCurrentScale_neutral_witness:
  "calculateCurrentScale (Scaler_new no_options) = (Fin 1, Scaler_new no_options)
   \<and> calculateCurrentScale_prev (Scaler_new no_options) = Fin 1
   \<and> fst (calculateCurrentScale
        (example_scaler\<lparr>container := Some (plain_element 800 600)\<rparr>)) = Fin (5 / 12)"
proof -
  have h1: "container (Scaler_new no_options) = None"
    by (simp add: Scaler_new_def)
  let ?s = "example_scaler\<lparr>container := Some (plain_element 800 600)\<rparr>"
  have h2: "container ?s = Some (plain_element 800 600) \<and>
            designSize ?s = \<lparr>width = Fin 1920, height = Fin 1080\<rparr> \<and>
            (1920 :: real) \<noteq> 0 \<and> (1080 :: real) \<noteq> 0"
    by (simp add: example_scaler_def)
  have m: "currentMode ?s \<noteq> MODES_FULLSCREEN"
    by (simp add: example_scaler_def Scaler_new_def no_options_def MODES_PROPORTIONAL_def
        MODES_FULLSCREEN_def)
  from h1 calculateCurrentScale_neutral [where s = "Scaler_new no_options", THEN conjunct1]
  have a: "calculateCurrentScale (Scaler_new no_options) = (Fin 1, Scaler_new no_options)
           \<and> calculateCurrentScale_prev (Scaler_new no_options) = Fin 1"
    by simp
  from h2 m calculateCurrentScale_neutral [where s = ?s and c = "plain_element 800 600"
      and dw = 1920 and dh = 1080, THEN conjunct2]
  have b: "fst (calculateCurrentScale ?s) = Fin (5 / 12)"
    by (simp add: plain_element_def)
  from a b show ?thesis by simp
qed

lemma calculateCurrentScale_fields:
  "designSize (snd (calculateCurrentScale s)) = designSize s"
  "container (snd (calculateCurrentScale s)) = container s"
  "content (snd (calculateCurrentScale s)) = content s"
  "currentMode (snd (calculateCurrentScale s)) = currentMode s"
  "options (snd (calculateCurrentScale s)) = options s"
  "isInitialized (snd (calculateCurrentScale s)) = isInitialized s"
  "calls (snd (calculateCurrentScale s)) = calls s"
  "currentScale (snd (calculateCurrentScale s)) = currentScale s"
  by (simp_all add: calculateCurrentScale_def Let_def split: option.splits)

lemma applyScaling_bound:
  assumes "container s = Some c" and "content s = Some d"
  shows "applyScaling s =
     (let s2 = (snd (calculateCurrentScale s))\<lparr>currentScale := fst (calculateCurrentScale s)\<rparr>;
          s3 = s2\<lparr>calls := calls s @
                  [if currentMode s = MODES_FULLSCREEN
                   then ApplyFullscreenMode (currentScale s2) (currentScaleX s2) (currentScaleY s2)
                   else ApplyProportionalMode (currentScale s2)]\<rparr>
      in if typeof (onResize (options s)) = ''function''
         then s3\<lparr>calls := calls s3 @
                [OnResize (offsetWidth c) (offsetHeight c) (currentScale s2)
                   (if currentMode s = MODES_FULLSCREEN
                    then Some \<lparr>scaleX = currentScaleX s2, scaleY = currentScaleY s2\<rparr>
                    else None)]\<rparr>
         else s3)"
  using assms
  by (simp add: applyScaling_def Let_def case_prod_beta calculateCurrentScale_fields)

lemma applyScaling_fields:
  "designSize (applyScaling s) = designSize s"
  "container (applyScaling s) = container s"
  "content (applyScaling s) = content s"
  "currentMode (applyScaling s) = currentMode s"
  "options (applyScaling s) = options s"
  "isInitialized (applyScaling s) = isInitialized s"
proof -
  consider (unbound) "container s = None \<or> content s = None"
    | (bound) c d where "container s = Some c" "content s = Some d"
    by (cases "container s"; cases "content s") auto
  then have "designSize (applyScaling s) = designSize s \<and>
    container (applyScaling s) = container s \<and>
    content (applyScaling s) = content s \<and>
    currentMode (applyScaling s) = currentMode s \<and>
    options (applyScaling s) = options s \<and>
    isInitialized (applyScaling s) = isInitialized s"
  proof cases
    case unbound
    then have "applyScaling s = s"
      by (auto simp: applyScaling_def split: option.splits)
    then show ?thesis by simp
  next
    case bound
    then show ?thesis
      by (simp add: applyScaling_bound Let_def calculateCurrentScale_fields)
  qed
  then show "designSize (applyScaling s) = designSize s"
    "container (applyScaling s) = container s"
    "content (applyScaling s) = content s"
    "currentMode (applyScaling s) = currentMode s"
    "options (applyScaling s) = options s"
    "isInitialized (applyScaling s) = isInitialized s"
    by simp_all
qed

lemma applyScaling_currentScale:
  "container s \<noteq> None \<Longrightarrow> content s \<noteq> None \<Longrightarrow>
   currentScale (applyScaling s) = fst (calculateCurrentScale s)"
  by (auto simp: applyScaling_bound Let_def)

lemma refresh_fields:
  "designSize (refresh s) = designSize s"
  "container (refresh s) = container s"
  "content (refresh s) = content s"
  "currentMode (refresh s) = currentMode s"
  "options (refresh s) = options s"
  by (simp_all add: refresh_def applyScaling_fields)

lemma refresh_unbound: "container s = None \<or> content s = None \<Longrightarrow> refresh s = s"
  by (auto simp: refresh_def)

lemma refresh_bound:
  "container s \<noteq> None \<Longrightarrow> content s \<noteq> None \<Longrightarrow>
   isInitialized (refresh s) \<and> currentScale (refresh s) = fst (calculateCurrentScale s)"
  by (simp add: refresh_def applyScaling_currentScale)


text \<open>
  Claim C8. \<open>setDesignSize\<close> stores the new design size and recomputes exactly when
  the width and the height are both greater than 0; for any other pair the call changes
  nothing, in the scaler and in the orchestrator alike.
\<close>

theorem setDesignSize_guard:
  "(js_gt w (Fin 0) \<and> js_gt h (Fin 0) \<longrightarrow>
      setDesignSize s w h = refresh (s\<lparr>designSize := \<lparr>width = w, height = h\<rparr>\<rparr>) \<and>
      designSize (setDesignSize s w h) = \<lparr>width = w, height = h\<rparr> \<and>
      (container s \<noteq> None \<and> content s \<noteq> None \<longrightarrow>
         isInitialized (setDesignSize s w h) \<and>
         currentScale (setDesignSize s w h) =
           fst (calculateCurrentScale (s\<lparr>designSize := \<lparr>width = w, height = h\<rparr>\<rparr>))))
   \<and> (\<not> (js_gt w (Fin 0) \<and> js_gt h (Fin 0)) \<longrightarrow> setDesignSize s w h = s)
   \<and> fs_scaler (FitScreenJS_setDesignSize fs w h) = setDesignSize (fs_scaler fs) w h
   \<and> (\<not> (js_gt w (Fin 0) \<and> js_gt h (Fin 0)) \<longrightarrow> FitScreenJS_setDesignSize fs w h = fs)"
proof -
  let ?s = "s\<lparr>designSize := \<lparr>width = w, height = h\<rparr>\<rparr>"
  have a: "js_gt w (Fin 0) \<and> js_gt h (Fin 0) \<longrightarrow>
      setDesignSize s w h = refresh ?s \<and>
      designSize (setDesignSize s w h) = \<lparr>width = w, height = h\<rparr>"
    by (simp add: setDesignSize_def refresh_fields)
  have b: "js_gt w (Fin 0) \<and> js_gt h (Fin 0) \<longrightarrow>
      (container s \<noteq> None \<and> content s \<noteq> None \<longrightarrow>
         isInitialized (setDesignSize s w h) \<and>
         currentScale (setDesignSize s w h) = fst (calculateCurrentScale ?s))"
    using refresh_bound [of ?s] by (simp add: setDesignSize_def)
  have c: "\<not> (js_gt w (Fin 0) \<and> js_gt h (Fin 0)) \<longrightarrow> setDesignSize s w h = s"
    by (simp add: setDesignSize_def)
  have d: "fs_scaler (FitScreenJS_setDesignSize fs w h) = setDesignSize (fs_scaler fs) w h"
    by (simp add: FitScreenJS_setDesignSize_def)
  have e: "\<not> (js_gt w (Fin 0) \<and> js_gt h (Fin 0)) \<longrightarrow> FitScreenJS_setDesignSize fs w h = fs"
    by (simp add: FitScreenJS_setDesignSize_def setDesignSize_def)
  from a b c d e show ?thesis by blast
qed

theorem setDesignSize_guard_witness:
  "designSize (setDesignSize example_scaler (Fin 2560) (Fin 1440)) =
     \<lparr>width = Fin 2560, height = Fin 1440\<rparr>
   \<and> isInitialized (setDesignSize example_scaler (Fin 2560) (Fin 1440))
   \<and> setDesignSize example_scaler (Fin 0) (Fin 1440) = example_scaler
   \<and> setDesignSize example_scaler NaN (Fin 1440) = example_scaler"
proof -
  have h: "js_gt (Fin 2560) (Fin 0) \<and> js_gt (Fin 1440) (Fin 0)" by simp
  have b: "container example_scaler \<noteq> None \<and> content example_scaler \<noteq> None"
    by (simp add: example_scaler_def)
  have n1: "\<not> (js_gt (Fin 0) (Fin 0) \<and> js_gt (Fin 1440) (Fin 0))" by simp
  have n2: "\<not> (js_gt NaN (Fin 0) \<and> js_gt (Fin 1440) (Fin 0))" by simp
  note t = setDesignSize_guard [where s = example_scaler and w = "Fin 2560" and h = "Fin 1440",
      THEN conjunct1]
  note u1 = setDesignSize_guard [where s = example_scaler and w = "Fin 0" and h = "Fin 1440",
      THEN conjunct2, THEN conjunct1]
  note u2 = setDesignSize_guard [where s = example_scaler and w = NaN and h = "Fin 1440",
      THEN conjunct2, THEN conjunct1]
  from t h b u1 n1 u2 n2 show ?thesis by blast
qed

lemma setMode_changed_bound:
  assumes ch: "m \<noteq> currentMode s" and ini: "isInitialized s"
    and c: "container s = Some c" and d: "content s = Some d"
    and ds: "designSize s = \<lparr>width = Fin dw, height = Fin dh\<rparr>" and nz: "dw \<noteq> 0" "dh \<noteq> 0"
  shows "isInitialized (setMode s m) \<and> designSize (setMode s m) = designSize s \<and>
    (m = MODES_FULLSCREEN \<longrightarrow>
       currentScale (setMode s m) =
         Fin (max (real (offsetWidth c) / dw) (real (offsetHeight c) / dh)) \<and>
       currentScaleX (setMode s m) = Fin (real (offsetWidth c) / dw) \<and>
       currentScaleY (setMode s m) = Fin (real (offsetHeight c) / dh) \<and>
       calls (setMode s m) =
         calls s @
         ApplyFullscreenMode (Fin (max (real (offsetWidth c) / dw) (real (offsetHeight c) / dh)))
           (Fin (real (offsetWidth c) / dw)) (Fin (real (offsetHeight c) / dh)) #
         (if typeof (onResize (options s)) = ''function''
          then [OnResize (offsetWidth c) (offsetHeight c)
                  (Fin (max (real (offsetWidth c) / dw) (real (offsetHeight c) / dh)))
                  (Some \<lparr>scaleX = Fin (real (offsetWidth c) / dw),
                         scaleY = Fin (real (offsetHeight c) / dh)\<rparr>)]
          else []) @
         (if typeof (onModeChange (options s)) = ''function'' then [OnModeChange m] else [])) \<and>
    (m \<noteq> MODES_FULLSCREEN \<longrightarrow>
       currentScale (setMode s m) =
         Fin (min (real (offsetWidth c) / dw) (real (offsetHeight c) / dh)) \<and>
       calls (setMode s m) =
         calls s @
         ApplyProportionalMode (Fin (min (real (offsetWidth c) / dw) (real (offsetHeight c) / dh))) #
         (if typeof (onResize (options s)) = ''function''
          then [OnResize (offsetWidth c) (offsetHeight c)
                  (Fin (min (real (offsetWidth c) / dw) (real (offsetHeight c) / dh))) None]
          else []) @
         (if typeof (onModeChange (options s)) = ''function'' then [OnModeChange m] else []))"
proof -
  let ?s1 = "s\<lparr>currentMode := m\<rparr>"
  have b: "container ?s1 = Some c" "content ?s1 = Some d" using c d by simp_all
  have sm: "setMode s m =
        (if typeof (onModeChange (options s)) = ''function''
         then (refresh ?s1)\<lparr>calls := calls (refresh ?s1) @ [OnModeChange m]\<rparr>
         else refresh ?s1)"
    using ch ini by (simp add: setMode_def Let_def refresh_fields)
  have rf: "refresh ?s1 = (applyScaling ?s1)\<lparr>isInitialized := True\<rparr>"
    using b by (simp add: refresh_def)
  have cs: "calculateCurrentScale ?s1 =
      (Fin (if m = MODES_FULLSCREEN
            then max (real (offsetWidth c) / dw) (real (offsetHeight c) / dh)
            else min (real (offsetWidth c) / dw) (real (offsetHeight c) / dh)),
       if m = MODES_FULLSCREEN
       then ?s1\<lparr>currentScaleX := Fin (real (offsetWidth c) / dw),
                 currentScaleY := Fin (real (offsetHeight c) / dh)\<rparr>
       else ?s1)"
    using c ds nz
    by (simp add: calculateCurrentScale_def Let_def calculateScale_Fin
        calculateNonProportionalScale_def)
  show ?thesis
    unfolding sm rf applyScaling_bound [OF b] cs
    using ds by (simp add: Let_def)
qed

text \<open>
  Claim C5. \<open>setMode\<close> of the orchestrator normalises its input with
  \<open>validateMode\<close> and hands it to the scaler. When the normalised mode differs from the
  current one and the scaler is initialised, the scaler stores it, refreshes and then
  calls \<open>onModeChange\<close> (when that is a function) with the new mode: with container and
  content bound and a non-zero design size, the stored scale becomes the cover scale
  (fullscreen) or the contain scale (proportional) of the container over the design
  size, and the calls made are the style application with that scale, then
  \<open>onResize\<close>, then \<open>onModeChange\<close>; with no container or content bound only the
  notification is made. When the mode is unchanged or the scaler is not initialised,
  the mode is stored and nothing else changes: no call is made and no scale is
  recomputed.
\<close>

theorem setMode_transition:
  "FitScreenJS_setMode fs v = fs\<lparr>fs_scaler := setMode (fs_scaler fs) (validateMode v)\<rparr>
   \<and> currentMode (fs_scaler (FitScreenJS_setMode fs v)) = validateMode v
   \<and> (validateMode v \<noteq> currentMode (fs_scaler fs) \<and> isInitialized (fs_scaler fs) \<longrightarrow>
       fs_scaler (FitScreenJS_setMode fs v) =
         (if typeof (onModeChange (options (fs_scaler fs))) = ''function''
          then (refresh ((fs_scaler fs)\<lparr>currentMode := validateMode v\<rparr>))
                 \<lparr>calls := calls (refresh ((fs_scaler fs)\<lparr>currentMode := validateMode v\<rparr>))
                           @ [OnModeChange (validateMode v)]\<rparr>
          else refresh ((fs_scaler fs)\<lparr>currentMode := validateMode v\<rparr>)))
   \<and> (validateMode v \<noteq> currentMode (fs_scaler fs) \<and> isInitialized (fs_scaler fs) \<and>
       container (fs_scaler fs) = Some c \<and> content (fs_scaler fs) = Some d \<and>
       designSize (fs_scaler fs) = \<lparr>width = Fin dw, height = Fin dh\<rparr> \<and> dw \<noteq> 0 \<and> dh \<noteq> 0 \<longrightarrow>
       isInitialized (fs_scaler (FitScreenJS_setMode fs v)) \<and>
       designSize (fs_scaler (FitScreenJS_setMode fs v)) = designSize (fs_scaler fs) \<and>
       (validateMode v = MODES_FULLSCREEN \<longrightarrow>
          currentScale (fs_scaler (FitScreenJS_setMode fs v)) =
            Fin (max (real (offsetWidth c) / dw) (real (offsetHeight c) / dh)) \<and>
          currentScaleX (fs_scaler (FitScreenJS_setMode fs v)) = Fin (real (offsetWidth c) / dw) \<and>
          currentScaleY (fs_scaler (FitScreenJS_setMode fs v)) = Fin (real (offsetHeight c) / dh) \<and>
          calls (fs_scaler (FitScreenJS_setMode fs v)) =
            calls (fs_scaler fs) @
            ApplyFullscreenMode
              (Fin (max (real (offsetWidth c) / dw) (real (offsetHeight c) / dh)))
              (Fin (real (offsetWidth c) / dw)) (Fin (real (offsetHeight c) / dh)) #
            (if typeof (onResize (options (fs_scaler fs))) = ''function''
             then [OnResize (offsetWidth c) (offsetHeight c)
                     (Fin (max (real (offsetWidth c) / dw) (real (offsetHeight c) / dh)))
                     (Some \<lparr>scaleX = Fin (real (offsetWidth c) / dw),
                            scaleY = Fin (real (offsetHeight c) / dh)\<rparr>)]
             else []) @
            (if typeof (onModeChange (options (fs_scaler fs))) = ''function''
             then [OnModeChange (validateMode v)] else [])) \<and>
       (validateMode v \<noteq> MODES_FULLSCREEN \<longrightarrow>
          currentScale (fs_scaler (FitScreenJS_setMode fs v)) =
            Fin (min (real (offsetWidth c) / dw) (real (offsetHeight c) / dh)) \<and>
          calls (fs_scaler (FitScreenJS_setMode fs v)) =
            calls (fs_scaler fs) @
            ApplyProportionalMode
              (Fin (min (real (offsetWidth c) / dw) (real (offsetHeight c) / dh))) #
            (if typeof (onResize (options (fs_scaler fs))) = ''function''
             then [OnResize (offsetWidth c) (offsetHeight c)
                     (Fin (min (real (offsetWidth c) / dw) (real (offsetHeight c) / dh))) None]
             else []) @
            (if typeof (onModeChange (options (fs_scaler fs))) = ''function''
             then [OnModeChange (validateMode v)] else [])))
   \<and> (validateMode v \<noteq> currentMode (fs_scaler fs) \<and> isInitialized (fs_scaler fs) \<and>
       (container (fs_scaler fs) = None \<or> content (fs_scaler fs) = None) \<longrightarrow>
       currentScale (fs_scaler (FitScreenJS_setMode fs v)) = currentScale (fs_scaler fs) \<and>
       calls (fs_scaler (FitScreenJS_setMode fs v)) =
         calls (fs_scaler fs) @
         (if typeof (onModeChange (options (fs_scaler fs))) = ''function''
          then [OnModeChange (validateMode v)] else []))
   \<and> (validateMode v = currentMode (fs_scaler fs) \<or> \<not> isInitialized (fs_scaler fs) \<longrightarrow>
       fs_scaler (FitScreenJS_setMode fs v) = (fs_scaler fs)\<lparr>currentMode := validateMode v\<rparr> \<and>
       calls (fs_scaler (FitScreenJS_setMode fs v)) = calls (fs_scaler fs) \<and>
       currentScale (fs_scaler (FitScreenJS_setMode fs v)) = currentScale (fs_scaler fs))"
proof -
  let ?sc = "fs_scaler fs" and ?m = "validateMode v"
  have a: "FitScreenJS_setMode fs v = fs\<lparr>fs_scaler := setMode ?sc ?m\<rparr>"
    by (simp add: FitScreenJS_setMode_def)
  then have a': "fs_scaler (FitScreenJS_setMode fs v) = setMode ?sc ?m" by simp
  have p2: "currentMode (fs_scaler (FitScreenJS_setMode fs v)) = validateMode v"
    unfolding a' by (simp add: setMode_def Let_def refresh_fields)
  have p3: "(validateMode v \<noteq> currentMode (fs_scaler fs) \<and> isInitialized (fs_scaler fs) \<longrightarrow>
       fs_scaler (FitScreenJS_setMode fs v) =
         (if typeof (onModeChange (options (fs_scaler fs))) = ''function''
          then (refresh ((fs_scaler fs)\<lparr>currentMode := validateMode v\<rparr>))
                 \<lparr>calls := calls (refresh ((fs_scaler fs)\<lparr>currentMode := validateMode v\<rparr>))
                           @ [OnModeChange (validateMode v)]\<rparr>
          else refresh ((fs_scaler fs)\<lparr>currentMode := validateMode v\<rparr>)))"
    unfolding a' by (auto simp: setMode_def Let_def refresh_fields)
  have p4: "(validateMode v \<noteq> currentMode (fs_scaler fs) \<and> isInitialized (fs_scaler fs) \<and>
       container (fs_scaler fs) = Some c \<and> content (fs_scaler fs) = Some d \<and>
       designSize (fs_scaler fs) = \<lparr>width = Fin dw, height = Fin dh\<rparr> \<and> dw \<noteq> 0 \<and> dh \<noteq> 0 \<longrightarrow>
       isInitialized (fs_scaler (FitScreenJS_setMode fs v)) \<and>
       designSize (fs_scaler (FitScreenJS_setMode fs v)) = designSize (fs_scaler fs) \<and>
       (validateMode v = MODES_FULLSCREEN \<longrightarrow>
          currentScale (fs_scaler (FitScreenJS_setMode fs v)) =
            Fin (max (real (offsetWidth c) / dw) (real (offsetHeight c) / dh)) \<and>
          currentScaleX (fs_scaler (FitScreenJS_setMode fs v)) = Fin (real (offsetWidth c) / dw) \<and>
          currentScaleY (fs_scaler (FitScreenJS_setMode fs v)) = Fin (real (offsetHeight c) / dh) \<and>
          calls (fs_scaler (FitScreenJS_setMode fs v)) =
            calls (fs_scaler fs) @
            ApplyFullscreenMode
              (Fin (max (real (offsetWidth c) / dw) (real (offsetHeight c) / dh)))
              (Fin (real (offsetWidth c) / dw)) (Fin (real (offsetHeight c) / dh)) #
            (if typeof (onResize (options (fs_scaler fs))) = ''function''
             then [OnResize (offsetWidth c) (offsetHeight c)
                     (Fin (max (real (offsetWidth c) / dw) (real (offsetHeight c) / dh)))
                     (Some \<lparr>scaleX = Fin (real (offsetWidth c) / dw),
                            scaleY = Fin (real (offsetHeight c) / dh)\<rparr>)]
             else []) @
            (if typeof (onModeChange (options (fs_scaler fs))) = ''function''
             then [OnModeChange (validateMode v)] else [])) \<and>
       (validateMode v \<noteq> MODES_FULLSCREEN \<longrightarrow>
          currentScale (fs_scaler (FitScreenJS_setMode fs v)) =
            Fin (min (real (offsetWidth c) / dw) (real (offsetHeight c) / dh)) \<and>
          calls (fs_scaler (FitScreenJS_setMode fs v)) =
            calls (fs_scaler fs) @
            ApplyProportionalMode
              (Fin (min (real (offsetWidth c) / dw) (real (offsetHeight c) / dh))) #
            (if typeof (onResize (options (fs_scaler fs))) = ''function''
             then [OnResize (offsetWidth c) (offsetHeight c)
                     (Fin (min (real (offsetWidth c) / dw) (real (offsetHeight c) / dh))) None]
             else []) @
            (if typeof (onModeChange (options (fs_scaler fs))) = ''function''
             then [OnModeChange (validateMode v)] else [])))"
    unfolding a' using setMode_changed_bound [of ?m ?sc c d dw dh] by blast
  have p5: "(validateMode v \<noteq> currentMode (fs_scaler fs) \<and> isInitialized (fs_scaler fs) \<and>
       (container (fs_scaler fs) = None \<or> content (fs_scaler fs) = None) \<longrightarrow>
       currentScale (fs_scaler (FitScreenJS_setMode fs v)) = currentScale (fs_scaler fs) \<and>
       calls (fs_scaler (FitScreenJS_setMode fs v)) =
         calls (fs_scaler fs) @
         (if typeof (onModeChange (options (fs_scaler fs))) = ''function''
          then [OnModeChange (validateMode v)] else []))"
    unfolding a' using refresh_unbound [of "?sc\<lparr>currentMode := ?m\<rparr>"]
    by (auto simp: setMode_def Let_def)
  have p6: "(validateMode v = currentMode (fs_scaler fs) \<or> \<not> isInitialized (fs_scaler fs) \<longrightarrow>
       fs_scaler (FitScreenJS_setMode fs v) = (fs_scaler fs)\<lparr>currentMode := validateMode v\<rparr> \<and>
       calls (fs_scaler (FitScreenJS_setMode fs v)) = calls (fs_scaler fs) \<and>
       currentScale (fs_scaler (FitScreenJS_setMode fs v)) = currentScale (fs_scaler fs))"
    unfolding a' by (auto simp: setMode_def Let_def)
  from a p2 p3 p4 p5 p6 show ?thesis by (intro conjI)
qed


theorem setMode_transition_witness:
  "calls (fs_scaler (FitScreenJS_setMode example_fitscreen (JStr ''FULLSCREEN''))) =
     [ApplyFullscreenMode (Fin (5 / 9)) (Fin (5 / 12)) (Fin (5 / 9)),
      OnResize 800 600 (Fin (5 / 9)) (Some \<lparr>scaleX = Fin (5 / 12), scaleY = Fin (5 / 9)\<rparr>),
      OnModeChange ''fullscreen'']
   \<and> currentScale (fs_scaler (FitScreenJS_setMode example_fitscreen (JStr ''FULLSCREEN''))) =
       Fin (5 / 9)
   \<and> currentMode (fs_scaler (FitScreenJS_setMode example_fitscreen (JStr ''FULLSCREEN''))) =
       ''fullscreen''
   \<and> calls (fs_scaler (FitScreenJS_setMode example_fitscreen (JStr ''Proportional''))) = []
   \<and> currentScale (fs_scaler (FitScreenJS_setMode example_fitscreen (JStr ''Proportional''))) =
       Fin 1"
proof -
  let ?fs = example_fitscreen
  let ?c = "plain_element 800 600" and ?d = "plain_element 1920 1080"
  have v1: "validateMode (JStr ''Proportional'') = ''proportional''"
    and v2: "validateMode (JStr ''FULLSCREEN'') = ''fullscreen''"
    by (simp_all add: validateMode_JStr case_variant_def MODES_FULLSCREEN_def
        MODES_PROPORTIONAL_def)
  have st: "currentMode (fs_scaler ?fs) = ''proportional''" "isInitialized (fs_scaler ?fs)"
    "container (fs_scaler ?fs) = Some ?c" "content (fs_scaler ?fs) = Some ?d"
    "designSize (fs_scaler ?fs) = \<lparr>width = Fin 1920, height = Fin 1080\<rparr>"
    "calls (fs_scaler ?fs) = []" "currentScale (fs_scaler ?fs) = Fin 1"
    "typeof (onResize (options (fs_scaler ?fs))) = ''function''"
    "typeof (onModeChange (options (fs_scaler ?fs))) = ''function''"
    by (simp_all add: example_fitscreen_def example_callbacks_scaler_def example_scaler_def
        Scaler_new_def no_options_def MODES_PROPORTIONAL_def)
  have sz: "offsetWidth ?c = 800" "offsetHeight ?c = 600" by (simp_all add: plain_element_def)
  note t = setMode_transition [where fs = ?fs and v = "JStr ''FULLSCREEN''" and c = ?c
      and d = ?d and dw = 1920 and dh = 1080]
  note u = setMode_transition [where fs = ?fs and v = "JStr ''Proportional''" and c = ?c
      and d = ?d and dw = 1920 and dh = 1080]
  have h: "validateMode (JStr ''FULLSCREEN'') \<noteq> currentMode (fs_scaler ?fs) \<and>
       isInitialized (fs_scaler ?fs) \<and>
       container (fs_scaler ?fs) = Some ?c \<and> content (fs_scaler ?fs) = Some ?d \<and>
       designSize (fs_scaler ?fs) = \<lparr>width = Fin 1920, height = Fin 1080\<rparr> \<and>
       (1920 :: real) \<noteq> 0 \<and> (1080 :: real) \<noteq> 0"
    by (simp add: v2 st)
  have fsm: "validateMode (JStr ''FULLSCREEN'') = MODES_FULLSCREEN"
    by (simp add: v2 MODES_FULLSCREEN_def)
  from t [THEN conjunct2, THEN conjunct2, THEN conjunct2, THEN conjunct1] h fsm
  have r1: "currentScale (fs_scaler (FitScreenJS_setMode ?fs (JStr ''FULLSCREEN''))) =
            Fin (max (real (offsetWidth ?c) / 1920) (real (offsetHeight ?c) / 1080))"
    and r2: "calls (fs_scaler (FitScreenJS_setMode ?fs (JStr ''FULLSCREEN''))) =
            calls (fs_scaler ?fs) @
            ApplyFullscreenMode
              (Fin (max (real (offsetWidth ?c) / 1920) (real (offsetHeight ?c) / 1080)))
              (Fin (real (offsetWidth ?c) / 1920)) (Fin (real (offsetHeight ?c) / 1080)) #
            (if typeof (onResize (options (fs_scaler ?fs))) = ''function''
             then [OnResize (offsetWidth ?c) (offsetHeight ?c)
                     (Fin (max (real (offsetWidth ?c) / 1920) (real (offsetHeight ?c) / 1080)))
                     (Some \<lparr>scaleX = Fin (real (offsetWidth ?c) / 1920),
                            scaleY = Fin (real (offsetHeight ?c) / 1080)\<rparr>)]
             else []) @
            (if typeof (onModeChange (options (fs_scaler ?fs))) = ''function''
             then [OnModeChange (validateMode (JStr ''FULLSCREEN''))] else [])"
    by blast+
  have g1: "calls (fs_scaler (FitScreenJS_setMode ?fs (JStr ''FULLSCREEN''))) =
     [ApplyFullscreenMode (Fin (5 / 9)) (Fin (5 / 12)) (Fin (5 / 9)),
      OnResize 800 600 (Fin (5 / 9)) (Some \<lparr>scaleX = Fin (5 / 12), scaleY = Fin (5 / 9)\<rparr>),
      OnModeChange ''fullscreen'']"
    unfolding r2 by (simp add: st sz v2)
  have g2: "currentScale (fs_scaler (FitScreenJS_setMode ?fs (JStr ''FULLSCREEN''))) = Fin (5 / 9)"
    unfolding r1 by (simp add: sz)
  from t [THEN conjunct2, THEN conjunct1] v2
  have g3: "currentMode (fs_scaler (FitScreenJS_setMode ?fs (JStr ''FULLSCREEN''))) = ''fullscreen''"
    by simp
  have same: "validateMode (JStr ''Proportional'') = currentMode (fs_scaler ?fs)"
    by (simp add: v1 st)
  from u [THEN conjunct2, THEN conjunct2, THEN conjunct2, THEN conjunct2, THEN conjunct2] same
  have g4: "calls (fs_scaler (FitScreenJS_setMode ?fs (JStr ''Proportional''))) = []"
    and g5: "currentScale (fs_scaler (FitScreenJS_setMode ?fs (JStr ''Proportional''))) = Fin 1"
    by (simp_all add: st)
  from g1 g2 g3 g4 g5 show ?thesis by simp
qed

text \<open>
  Claim C10. In the revision with independent scale factors, after a refresh in
  fullscreen mode of a scaler with container and content bound and a positive design
  size, the stored scale is the larger of the stored independent pair, which are the two
  quotients of the container size by the design size.
\<close>

theorem fullscreen_scale_is_max:
  "container s = Some c \<and> content s = Some d \<and> currentMode s = MODES_FULLSCREEN \<and>
   js_gt (width (designSize s)) (Fin 0) \<and> js_gt (height (designSize s)) (Fin 0) \<longrightarrow>
   currentScale (refresh s) = Math_max (currentScaleX (refresh s)) (currentScaleY (refresh s)) \<and>
   currentScaleX (refresh s) = js_div (Fin (real (offsetWidth c))) (width (designSize s)) \<and>
   currentScaleY (refresh s) = js_div (Fin (real (offsetHeight c))) (height (designSize s))"
proof
  assume h: "container s = Some c \<and> content s = Some d \<and> currentMode s = MODES_FULLSCREEN \<and>
   js_gt (width (designSize s)) (Fin 0) \<and> js_gt (height (designSize s)) (Fin 0)"
  then have t: "truthy_number (width (designSize s))" "truthy_number (height (designSize s))"
    by (simp_all add: js_gt_0_truthy)
  from h t show "currentScale (refresh s) =
      Math_max (currentScaleX (refresh s)) (currentScaleY (refresh s)) \<and>
   currentScaleX (refresh s) = js_div (Fin (real (offsetWidth c))) (width (designSize s)) \<and>
   currentScaleY (refresh s) = js_div (Fin (real (offsetHeight c))) (height (designSize s))"
    by (simp add: refresh_def applyScaling_bound Let_def calculateCurrentScale_def
        calculateScale_def calculateNonProportionalScale_def)
qed

theorem fullscreen_scale_is_max_witness:
  "currentScale (refresh (example_scaler\<lparr>container := Some (plain_element 800 600),
       currentMode := MODES_FULLSCREEN\<rparr>)) = Fin (5 / 9)
   \<and> currentScaleX (refresh (example_scaler\<lparr>container := Some (plain_element 800 600),
       currentMode := MODES_FULLSCREEN\<rparr>)) = Fin (5 / 12)
   \<and> currentScaleY (refresh (example_scaler\<lparr>container := Some (plain_element 800 600),
       currentMode := MODES_FULLSCREEN\<rparr>)) = Fin (5 / 9)"
proof -
  let ?s = "example_scaler\<lparr>container := Some (plain_element 800 600),
       currentMode := MODES_FULLSCREEN\<rparr>"
  have h: "container ?s = Some (plain_element 800 600) \<and>
     content ?s = Some (plain_element 1920 1080) \<and> currentMode ?s = MODES_FULLSCREEN \<and>
     js_gt (width (designSize ?s)) (Fin 0) \<and> js_gt (height (designSize ?s)) (Fin 0)"
    by (simp add: example_scaler_def)
  have v: "designSize ?s = \<lparr>width = Fin 1920, height = Fin 1080\<rparr>"
    by (simp add: example_scaler_def)
  from fullscreen_scale_is_max [where s = ?s and c = "plain_element 800 600"
      and d = "plain_element 1920 1080"] h
  have r: "currentScale (refresh ?s) = Math_max (currentScaleX (refresh ?s)) (currentScaleY (refresh ?s))"
    "currentScaleX (refresh ?s) = js_div (Fin (real (offsetWidth (plain_element 800 600)))) (width (designSize ?s))"
    "currentScaleY (refresh ?s) = js_div (Fin (real (offsetHeight (plain_element 800 600)))) (height (designSize ?s))"
    by blast+
  have x: "currentScaleX (refresh ?s) = Fin (5 / 12)"
    unfolding r(2) v by (simp add: plain_element_def)
  have y: "currentScaleY (refresh ?s) = Fin (5 / 9)"
    unfolding r(3) v by (simp add: plain_element_def)
  have "currentScale (refresh ?s) = Fin (5 / 9)"
    unfolding r(1) x y by simp
  with x y show ?thesis by simp
qed

section \<open>Properties of the orchestrator\<close>

lemma FitScreenJS_refresh_frame:
  "window_calls (FitScreenJS_refresh fs) = window_calls fs"
  "isDestroyed (FitScreenJS_refresh fs) = isDestroyed fs"
  "fs_isInitialized (FitScreenJS_refresh fs) = fs_isInitialized fs"
  by (simp_all add: FitScreenJS_refresh_def)

lemma FitScreenJS_applyTo_frame:
  "isDestroyed (FitScreenJS_applyTo win fs tgt) = isDestroyed fs"
  "deregistrations (FitScreenJS_applyTo win fs tgt) = deregistrations fs"
  by (auto simp: FitScreenJS_applyTo_def FitScreenJS_refresh_frame deregistrations_def Let_def
      split: option.splits prod.splits)

lemma perform_not_Destroy:
  assumes "op \<noteq> Destroy"
  shows "isDestroyed (perform fs op) = isDestroyed fs \<and>
         deregistrations (perform fs op) = deregistrations fs"
proof (cases op)
  case (ApplyTo win tgt)
  then show ?thesis by (simp add: FitScreenJS_applyTo_frame)
next
  case (SetMode m)
  then show ?thesis by (simp add: FitScreenJS_setMode_def deregistrations_def)
next
  case (SetDesignSize w h)
  then show ?thesis by (simp add: FitScreenJS_setDesignSize_def deregistrations_def)
next
  case Refresh
  then show ?thesis by (simp add: FitScreenJS_refresh_frame deregistrations_def)
next
  case ResizeEvent
  then show ?thesis
    by (simp add: resizeHandler_def FitScreenJS_refresh_frame deregistrations_def)
next
  case Destroy
  with assms show ?thesis by simp
qed

lemma destroy_effect:
  "FitScreenJS_destroy fs =
     (if fs_isInitialized fs \<and> \<not> isDestroyed fs
      then fs\<lparr>window_calls := window_calls fs @ [RemoveResizeListener], isDestroyed := True\<rparr>
      else fs)"
  by (simp add: FitScreenJS_destroy_def)

lemma destroy_destroyed: "isDestroyed fs \<Longrightarrow> FitScreenJS_destroy fs = fs"
  by (simp add: FitScreenJS_destroy_def)

lemma destroy_idem: "FitScreenJS_destroy (FitScreenJS_destroy fs) = FitScreenJS_destroy fs"
  by (simp add: FitScreenJS_destroy_def)

lemma perform_inv: "destroy_inv fs \<Longrightarrow> destroy_inv (perform fs op)"
proof (cases "op = Destroy")
  case True
  assume "destroy_inv fs"
  then show ?thesis
    using True by (auto simp: destroy_inv_def deregistrations_def FitScreenJS_destroy_def)
next
  case False
  assume "destroy_inv fs"
  then show ?thesis
    using perform_not_Destroy [OF False, of fs] by (simp add: destroy_inv_def)
qed

lemma run_Cons: "run fs (op # ops) = run (perform fs op) ops"
  by (simp add: run_def)

lemma run_Nil: "run fs [] = fs"
  by (simp add: run_def)

lemma run_inv: "destroy_inv fs \<Longrightarrow> destroy_inv (run fs ops)"
  by (induction ops arbitrary: fs) (simp_all add: run_Nil run_Cons perform_inv)

lemma perform_destroyed:
  "isDestroyed fs \<Longrightarrow>
   isDestroyed (perform fs op) \<and> deregistrations (perform fs op) = deregistrations fs"
  by (cases "op = Destroy") (simp_all add: destroy_destroyed perform_not_Destroy)

lemma run_destroyed:
  "isDestroyed fs \<Longrightarrow>
   isDestroyed (run fs ops) \<and> deregistrations (run fs ops) = deregistrations fs"
proof (induction ops arbitrary: fs)
  case Nil
  then show ?case by (simp add: run_Nil)
next
  case (Cons op ops)
  from perform_destroyed [OF Cons.prems, of op] Cons.IH [of "perform fs op"]
  show ?case by (simp add: run_Cons)
qed

lemma new_inv: "destroy_inv (FitScreenJS_new win opts tgt)"
proof (cases tgt)
  case None
  then show ?thesis
    by (simp add: FitScreenJS_new_def Let_def destroy_inv_def deregistrations_def)
next
  case (Some t)
  let ?fs = "\<lparr>fs_options = normalizeOptions opts,
      fs_scaler = Scaler_new
        ((normalizeOptions opts)\<lparr>mode := JStr (validateMode (mode (normalizeOptions opts)))\<rparr>),
      fs_isInitialized = False, isDestroyed = False, window_calls = []\<rparr>"
  have "FitScreenJS_new win opts tgt = FitScreenJS_applyTo win ?fs t"
    using Some by (simp add: FitScreenJS_new_def Let_def)
  moreover have "isDestroyed ?fs = False" "deregistrations ?fs = 0"
    by (simp_all add: deregistrations_def)
  ultimately show ?thesis
    by (simp only: destroy_inv_def FitScreenJS_applyTo_frame if_False)
qed

text \<open>
  Claim C9. Over every sequence of operations on an instance, the resize listener is
  deregistered at most once. A destroy on an initialised instance that is not yet
  destroyed deregisters once and sets the destroyed flag; from then on the flag stays
  set, every destroy returns the instance unchanged, and no operation deregisters again.
\<close>

theorem destroy_deregisters_once:
  "deregistrations (run (FitScreenJS_new win opts tgt) ops) \<le> 1
   \<and> (fs_isInitialized fs \<and> \<not> isDestroyed fs \<longrightarrow>
       window_calls (FitScreenJS_destroy fs) = window_calls fs @ [RemoveResizeListener] \<and>
       isDestroyed (FitScreenJS_destroy fs))
   \<and> (isDestroyed fs \<longrightarrow>
       FitScreenJS_destroy fs = fs \<and> isDestroyed (run fs ops') \<and>
       deregistrations (run fs ops') = deregistrations fs)
   \<and> FitScreenJS_destroy (FitScreenJS_destroy fs) = FitScreenJS_destroy fs"
proof -
  have "destroy_inv (run (FitScreenJS_new win opts tgt) ops)"
    by (rule run_inv [OF new_inv])
  then have a: "deregistrations (run (FitScreenJS_new win opts tgt) ops) \<le> 1"
    by (simp add: destroy_inv_def split: if_splits)
  have b: "fs_isInitialized fs \<and> \<not> isDestroyed fs \<longrightarrow>
       window_calls (FitScreenJS_destroy fs) = window_calls fs @ [RemoveResizeListener] \<and>
       isDestroyed (FitScreenJS_destroy fs)"
    by (simp add: FitScreenJS_destroy_def)
  have c: "isDestroyed fs \<longrightarrow>
       FitScreenJS_destroy fs = fs \<and> isDestroyed (run fs ops') \<and>
       deregistrations (run fs ops') = deregistrations fs"
    using run_destroyed [of fs ops'] by (simp add: destroy_destroyed)
  from a b c destroy_idem [of fs] show ?thesis by blast
qed




theorem destroy_deregisters_once_witness:
  "window_calls (run (FitScreenJS_new \<lparr>innerWidth = 1024, innerHeight = 768\<rparr> no_options
       (Some example_target)) [Destroy, Refresh, Destroy, ResizeEvent, Destroy])
     = [AddResizeListener, RemoveResizeListener]"
proof -
  let ?new = "FitScreenJS_new \<lparr>innerWidth = 1024, innerHeight = 768\<rparr> no_options
       (Some example_target)"
  have w: "window_calls ?new = [AddResizeListener]" and i: "fs_isInitialized ?new"
    and n: "\<not> isDestroyed ?new"
    by (simp_all add: FitScreenJS_new_def Let_def example_target_def FitScreenJS_applyTo_def
        FitScreenJS_refresh_def)
  note t = destroy_deregisters_once [where fs = ?new and win = "\<lparr>innerWidth = 1024, innerHeight = 768\<rparr>"
      and opts = no_options and tgt = "Some example_target" and ops = "[]"]
  from t i n w have d: "window_calls (FitScreenJS_destroy ?new) = [AddResizeListener, RemoveResizeListener]"
    and dd: "isDestroyed (FitScreenJS_destroy ?new)"
    by simp_all
  note u = destroy_deregisters_once [where fs = "FitScreenJS_destroy ?new"
      and win = "\<lparr>innerWidth = 1024, innerHeight = 768\<rparr>"
      and opts = no_options and tgt = "Some example_target" and ops = "[]"]
  from u dd have e: "FitScreenJS_destroy (FitScreenJS_destroy ?new) = FitScreenJS_destroy ?new"
    by simp
  have f: "fs_isInitialized (FitScreenJS_destroy ?new)"
    using i by (simp add: FitScreenJS_destroy_def)
  show ?thesis
    by (simp add: run_def FitScreenJS_refresh_frame resizeHandler_def destroy_destroyed
        dd e d f)
qed

section \<open>The unchecked aspect-ratio branch\<close>

text \<open>
  Claim C3. \<open>determineDesignSize\<close> is to return the first valid source in the
  priority order, a source being valid when its width and its height are numbers
  greater than 0, and the default 1920 by 1080 when no source is valid. The
  aspect-ratio branch breaks this: it is the one branch that returns without testing
  the size it computed. With the ratio 16/9 configured and a container of size 0 by 0
  the code returns 0 by 0, which is not valid, where the rule gives 1920 by 1080, as
  the code does for the same container without a ratio. The orchestrator then drops
  the 0 by 0 in \<open>setDesignSize\<close>, so that the design size of the scaler stays 0 by 0,
  while without the ratio it becomes 1920 by 1080.
\<close>

theorem determineDesignSize_ratio_unchecked:
  "determineDesignSize \<lparr>innerWidth = 1024, innerHeight = 768\<rparr>
     (no_options\<lparr>aspectRatio := JNum (Fin (16 / 9))\<rparr>) (Some (plain_element 0 0)) None
     = \<lparr>width = Fin 0, height = Fin 0\<rparr>
   \<and> \<not> valid_size \<lparr>width = Fin 0, height = Fin 0\<rparr>
   \<and> resolveDesignSize_spec \<lparr>innerWidth = 1024, innerHeight = 768\<rparr>
     (no_options\<lparr>aspectRatio := JNum (Fin (16 / 9))\<rparr>) (Some (plain_element 0 0)) None
     = \<lparr>width = Fin 1920, height = Fin 1080\<rparr>
   \<and> determineDesignSize \<lparr>innerWidth = 1024, innerHeight = 768\<rparr>
     no_options (Some (plain_element 0 0)) None
     = \<lparr>width = Fin 1920, height = Fin 1080\<rparr>
   \<and> designSize (fs_scaler (FitScreenJS_new \<lparr>innerWidth = 1024, innerHeight = 768\<rparr>
       (no_options\<lparr>aspectRatio := JNum (Fin (16 / 9))\<rparr>)
       (Some (Some (plain_element 0 0, plain_element 0 0)))))
     = \<lparr>width = Fin 0, height = Fin 0\<rparr>
   \<and> designSize (fs_scaler (FitScreenJS_new \<lparr>innerWidth = 1024, innerHeight = 768\<rparr>
       no_options (Some (Some (plain_element 0 0, plain_element 0 0)))))
     = \<lparr>width = Fin 1920, height = Fin 1080\<rparr>"
proof -
  let ?win = "\<lparr>innerWidth = 1024, innerHeight = 768\<rparr>"
  let ?o = "no_options\<lparr>aspectRatio := JNum (Fin (16 / 9))\<rparr>"
  let ?c = "plain_element 0 0"
  have nz: "double_16_9 \<noteq> 0" by (simp add: double_16_9_def)
  have a: "determineDesignSize ?win ?o (Some ?c) None = \<lparr>width = Fin 0, height = Fin 0\<rparr>"
    using nz
    by (simp add: determineDesignSize_def no_options_def plain_element_def binary64_16_9
        binary64_special)
  have a': "determineDesignSize ?win ?o (Some ?c) (Some ?c) = \<lparr>width = Fin 0, height = Fin 0\<rparr>"
    using nz
    by (simp add: determineDesignSize_def no_options_def plain_element_def binary64_16_9
        binary64_special)
  have b: "\<not> valid_size \<lparr>width = Fin 0, height = Fin 0\<rparr>"
    by (simp add: valid_size_def)
  have c: "resolveDesignSize_spec ?win ?o (Some ?c) None = \<lparr>width = Fin 1920, height = Fin 1080\<rparr>"
    using nz
    by (simp add: resolveDesignSize_spec_def no_options_def
      plain_element_def explicit_candidate_def ratio_candidate_def configured_ratio_def
      ratio_size_def ratio_viewport_def element_size_def valid_size_def
      detected_candidate_def measured_candidate_def DEFAULT_DESIGN_def
      DEFAULT_DESIGN_WIDTH_def DEFAULT_DESIGN_HEIGHT_def binary64_16_9 binary64_special)
  have d: "determineDesignSize ?win no_options (Some ?c) None
           = \<lparr>width = Fin 1920, height = Fin 1080\<rparr>"
    by (simp add: determineDesignSize_def no_options_def plain_element_def
        DEFAULT_DESIGN_WIDTH_def DEFAULT_DESIGN_HEIGHT_def)
  have d': "determineDesignSize ?win no_options (Some ?c) (Some ?c)
           = \<lparr>width = Fin 1920, height = Fin 1080\<rparr>"
    by (simp add: determineDesignSize_def no_options_def plain_element_def
        DEFAULT_DESIGN_WIDTH_def DEFAULT_DESIGN_HEIGHT_def)
  have n1: "normalizeOptions ?o = ?o" and n2: "normalizeOptions no_options = no_options"
    by (simp_all add: normalizeOptions_def no_options_def)
  have e: "designSize (fs_scaler (FitScreenJS_new ?win ?o (Some (Some (?c, ?c)))))
           = \<lparr>width = Fin 0, height = Fin 0\<rparr>"
    by (simp add: FitScreenJS_new_def FitScreenJS_applyTo_def FitScreenJS_refresh_def Let_def
        n1 a' setDesignSize_def setElements_def refresh_fields Scaler_new_def)
  have f: "designSize (fs_scaler (FitScreenJS_new ?win no_options (Some (Some (?c, ?c)))))
           = \<lparr>width = Fin 1920, height = Fin 1080\<rparr>"
    by (simp add: FitScreenJS_new_def FitScreenJS_applyTo_def FitScreenJS_refresh_def Let_def
        n2 d' setDesignSize_def setElements_def refresh_fields Scaler_new_def)
  from a b c d e f show ?thesis by simp
qed

end
